theory Spec2Isabelle
  imports Complex_Main
begin

section \<open>The base fragment of the surface shape editor\<close>

text \<open>
  An embedding of \<^verbatim>\<open>src/util/editor/BaseSurfaceEditorFragment.js\<close> and
  \<^verbatim>\<open>src/util/editor/ShapeEditorConstants.js\<close>. JavaScript numbers are read as real
  numbers, except in \<^verbatim>\<open>normalizedHeading\<close>: its branches compare numbers it has
  computed, so there every operation is rounded to a double as the program does.
  Where the program would produce a value that is not a number (a division of zero by
  zero, a coordinate read from an object that has none) the model returns a
  \<open>failure\<close> instead, so that these cases stay visible.
\<close>

datatype failure = DivisionByZero | UndefinedCoordinate | NotANumber

subsection \<open>Diagnostics and the abstract contract\<close>

text \<open>
  Modelled from the spec: \<^verbatim>\<open>Logger\<close> and \<^verbatim>\<open>UnsupportedOperationError\<close> are not part
  of the sources. \<^verbatim>\<open>Logger.logMessage(level, className, functionName, message)\<close> records
  a diagnostic at the given level and hands back its text, which becomes the message
  of the error that is thrown.
\<close>

datatype level = LEVEL_SEVERE | LEVEL_WARNING | LEVEL_INFO

record diagnostic =
  severity :: level
  className :: string
  functionName :: string
  message :: string

type_synonym log = "diagnostic list"

datatype error = UnsupportedOperationError diagnostic

definition logMessage :: "log \<Rightarrow> level \<Rightarrow> string \<Rightarrow> string \<Rightarrow> string \<Rightarrow> log \<times> diagnostic" where
  "logMessage lg lv cls fn msg =
     (let d = \<lparr>severity = lv, className = cls, functionName = fn, message = msg\<rparr>
      in (lg @ [d], d))"

text \<open>
  Each contract method takes the log and its arguments and yields the log afterwards
  together with either the thrown error (\<open>Inl\<close>) or a returned value (\<open>Inr\<close>).
\<close>

definition canHandle :: "log \<Rightarrow> 'shape \<Rightarrow> log \<times> (error + bool)" where
  "canHandle lg shape =
     (let (lg', d) = logMessage lg LEVEL_SEVERE ''BaseSurfaceEditorFragment'' ''canHandle''
                       ''abstractInvocation''
      in (lg', Inl (UnsupportedOperationError d)))"

definition createShadowShape :: "log \<Rightarrow> 'shape \<Rightarrow> log \<times> (error + 'shape)" where
  "createShadowShape lg shape =
     (let (lg', d) = logMessage lg LEVEL_SEVERE ''BaseSurfaceEditorFragment'' ''createShadowShape''
                       ''abstractInvocation''
      in (lg', Inl (UnsupportedOperationError d)))"

definition getShapeCenter :: "log \<Rightarrow> 'shape \<Rightarrow> 'globe \<Rightarrow> log \<times> (error + 'location)" where
  "getShapeCenter lg shape globe =
     (let (lg', d) = logMessage lg LEVEL_SEVERE ''BaseSurfaceEditorFragment'' ''getShapeCenter''
                       ''abstractInvocation''
      in (lg', Inl (UnsupportedOperationError d)))"

definition initializeControlElements ::
  "log \<Rightarrow> 'shape \<Rightarrow> 'cp list \<Rightarrow> 'acc list \<Rightarrow> 'attrs \<Rightarrow> 'attrs \<Rightarrow> 'attrs \<Rightarrow> log \<times> (error + unit)" where
  "initializeControlElements lg shape controlPoints accessories resizeControlPointAttributes
       rotateControlPointAttributes moveControlPointAttributes =
     (let (lg', d) = logMessage lg LEVEL_SEVERE ''BaseSurfaceEditorFragment''
                       ''initializeControlElements'' ''abstractInvocation''
      in (lg', Inl (UnsupportedOperationError d)))"

definition updateControlElements ::
  "log \<Rightarrow> 'shape \<Rightarrow> 'globe \<Rightarrow> 'cp list \<Rightarrow> 'acc list \<Rightarrow> log \<times> (error + unit)" where
  "updateControlElements lg shape globe controlPoints accessories =
     (let (lg', d) = logMessage lg LEVEL_SEVERE ''BaseSurfaceEditorFragment''
                       ''updateControlElements'' ''abstractInvocation''
      in (lg', Inl (UnsupportedOperationError d)))"

definition reshape ::
  "log \<Rightarrow> 'shape \<Rightarrow> 'globe \<Rightarrow> 'cp \<Rightarrow> 'pos \<Rightarrow> 'pos \<Rightarrow> bool \<Rightarrow> log \<times> (error + unit)" where
  "reshape lg shape globe controlPoint currentPosition previousPosition secondaryBehavior =
     (let (lg', d) = logMessage lg LEVEL_SEVERE ''BaseSurfaceEditorFragment'' ''reshape''
                       ''abstractInvocation''
      in (lg', Inl (UnsupportedOperationError d)))"

subsection \<open>Locations, positions and control points\<close>

text \<open>
  A \<^verbatim>\<open>Location\<close> has a latitude and a longitude in degrees, a \<^verbatim>\<open>Position\<close> an
  altitude as well. The program reads \<^verbatim>\<open>.latitude\<close> and \<^verbatim>\<open>.longitude\<close> of either.
\<close>

datatype location =
    Location (latitude: real) (longitude: real)
  | Position (latitude: real) (longitude: real) (altitude: real)

text \<open>The purposes of \<^verbatim>\<open>ShapeEditorConstants\<close>.\<close>

definition LOCATION :: string where "LOCATION = ''location''"
definition ROTATION :: string where "ROTATION = ''rotation''"
definition WIDTH :: string where "WIDTH = ''width''"
definition HEIGHT :: string where "HEIGHT = ''height''"
definition RADIUS :: string where "RADIUS = ''radius''"
definition DRAG :: string where "DRAG = ''drag''"

definition ShapeEditorConstants :: "string set" where
  "ShapeEditorConstants = {LOCATION, ROTATION, WIDTH, HEIGHT, RADIUS, DRAG}"

text \<open>
  Modelled from the spec: \<^verbatim>\<open>Placemark\<close> and the altitude modes of the \<^verbatim>\<open>WorldWind\<close>
  object are not part of the sources. A placemark is built from a position, the eye
  distance scaling flag and its attributes, and starts with no user properties.
  \<^verbatim>\<open>userProperties\<close> is a JavaScript object: a property is present when it has been
  assigned.
\<close>

datatype altitude_mode = ABSOLUTE | CLAMP_TO_GROUND | RELATIVE_TO_GROUND

datatype property = Text string | Index int

record 'a placemark =
  position :: location
  eyeDistanceScaling :: bool
  attributes :: 'a
  altitudeMode :: altitude_mode
  userProperties :: "string \<rightharpoonup> property"

definition new_Placemark :: "location \<Rightarrow> bool \<Rightarrow> 'a \<Rightarrow> 'a placemark" where
  "new_Placemark pos scaling attrs =
     \<lparr>position = pos, eyeDistanceScaling = scaling, attributes = attrs,
      altitudeMode = ABSOLUTE, userProperties = Map.empty\<rparr>"

text \<open>
  \<^verbatim>\<open>createControlPoint(controlPoints, attributes, purpose, index)\<close>. The index is
  \<open>None\<close> when the argument is \<^verbatim>\<open>undefined\<close> (left out by the caller). The function
  pushes onto \<^verbatim>\<open>controlPoints\<close>; the model returns the array afterwards.
\<close>

definition createControlPoint ::
  "'a placemark list \<Rightarrow> 'a \<Rightarrow> string \<Rightarrow> int option \<Rightarrow> 'a placemark list" where
  "createControlPoint controlPoints attrs purpose index =
     (let controlPoint = new_Placemark (Location 0 0) False attrs;
          controlPoint = controlPoint\<lparr>altitudeMode := CLAMP_TO_GROUND\<rparr>;
          controlPoint = controlPoint\<lparr>userProperties :=
                           (userProperties controlPoint)(''purpose'' \<mapsto> Text purpose)\<rparr>;
          controlPoint = (case index of
                            None \<Rightarrow> controlPoint
                          | Some i \<Rightarrow> controlPoint\<lparr>userProperties :=
                                        (userProperties controlPoint)(''index'' \<mapsto> Index i)\<rparr>)
      in controlPoints @ [controlPoint])"

subsection \<open>Doubles\<close>

text \<open>
  A JavaScript number is an IEEE 754 double: zero or a real number \<open>m * 2 ^ e\<close> with
  an integer \<open>m\<close> of at most 53 bits and \<open>e\<close> not below \<open>- 1074\<close>. The result of
  \<^verbatim>\<open>+\<close>, \<^verbatim>\<open>*\<close> and \<^verbatim>\<open>/\<close> is the exact result rounded to the nearest double,
  and to the one with the even \<open>m\<close> when two doubles are equally near.

  \<open>rne\<close> rounds a real number to the nearest integer, ties to the even one.
  \<open>expo x\<close> is the exponent of the binade of \<open>x\<close>, held at \<open>- 1022\<close> for the
  subnormal numbers; \<open>spacing x\<close> is the distance between neighbouring doubles there,
  and \<open>fl x\<close> the double nearest to \<open>x\<close>. Numbers beyond the largest double are left
  out: \<^verbatim>\<open>normalizedHeading\<close> does not reach them from finite arguments, since the two
  products are smaller in absolute value than its arguments, their sum is at most twice
  the larger product, and what follows lies between minus 360 and 360.
\<close>

definition rne :: "real \<Rightarrow> int" where
  "rne y = (let f = \<lfloor>y\<rfloor>
            in if y - of_int f < 1 / 2 then f
               else if y - of_int f > 1 / 2 then f + 1
               else if even f then f else f + 1)"

definition expo :: "real \<Rightarrow> int" where
  "expo x = max \<lfloor>log 2 \<bar>x\<bar>\<rfloor> (- 1022)"

definition spacing :: "real \<Rightarrow> real" where
  "spacing x = 2 powr of_int (expo x - 52)"

definition fl :: "real \<Rightarrow> real" where
  "fl x = (if x = 0 then 0 else of_int (rne (x / spacing x)) * spacing x)"

subsection \<open>Angles and headings\<close>

text \<open>
  Modelled from the spec: the constants of \<^verbatim>\<open>Angle\<close> are not part of the sources;
  they convert between degrees and radians and are computed from \<^verbatim>\<open>Math.PI\<close>, the
  double nearest to \<open>\<pi>\<close>, as \<^verbatim>\<open>Math.PI / 180.0\<close>, \<^verbatim>\<open>180.0 / Math.PI\<close> and
  \<^verbatim>\<open>2 * Math.PI\<close>.
\<close>

definition Math_PI :: real where "Math_PI = 884279719003555 / 2 ^ 48"
definition DEGREES_TO_RADIANS :: real where "DEGREES_TO_RADIANS = fl (Math_PI / 180)"
definition RADIANS_TO_DEGREES :: real where "RADIANS_TO_DEGREES = fl (180 / Math_PI)"
definition TWO_PI :: real where "TWO_PI = fl (2 * Math_PI)"

text \<open>
  The remainder operator \<^verbatim>\<open>a % b\<close> on numbers truncates the quotient towards zero,
  so the result has the sign of \<open>a\<close>. The remainder of two doubles is a double: it is
  not rounded. It is used with the divisor \<open>TWO_PI\<close> only.
\<close>

definition trunc :: "real \<Rightarrow> int" where
  "trunc x = (if 0 \<le> x then \<lfloor>x\<rfloor> else \<lceil>x\<rceil>)"

definition js_remainder :: "real \<Rightarrow> real \<Rightarrow> real" where
  "js_remainder a b = a - b * of_int (trunc (a / b))"

text \<open>
  \<^verbatim>\<open>normalizedHeading(currentHeading, deltaHeading)\<close>: two products, their sum, the
  sum of the negative branch and the last product are rounded.
\<close>

definition normalizedHeading :: "real \<Rightarrow> real \<Rightarrow> real" where
  "normalizedHeading currentHeading deltaHeading =
     (let newHeading = fl (fl (currentHeading * DEGREES_TO_RADIANS)
                            + fl (deltaHeading * DEGREES_TO_RADIANS));
          newHeading = (if \<bar>newHeading\<bar> > TWO_PI then js_remainder newHeading TWO_PI
                        else newHeading)
      in fl (RADIANS_TO_DEGREES
               * (if newHeading \<ge> 0 then newHeading else fl (newHeading + TWO_PI))))"

subsection \<open>Vectors and the globe\<close>

text \<open>
  Modelled from the spec: \<^verbatim>\<open>Vec3\<close> is not part of the sources. It is a cartesian
  point with componentwise arithmetic. The methods \<^verbatim>\<open>add\<close>, \<^verbatim>\<open>subtract\<close>,
  \<^verbatim>\<open>divide\<close> and \<^verbatim>\<open>normalize\<close> update the vector they are called on and return it:
  \<^verbatim>\<open>moveLocation\<close> calls \<^verbatim>\<open>markerPoint.add(delta)\<close> for its effect alone, and
  \<^verbatim>\<open>nearestPointOnSegment\<close> copies the segment before it normalises it. The functions
  below give the value the receiver holds afterwards.

  Dividing the zero vector by zero and normalising the zero vector give components
  that are not numbers; both are \<open>None\<close> here.
\<close>

type_synonym vec3 = "real \<times> real \<times> real"

fun Vec3_add :: "vec3 \<Rightarrow> vec3 \<Rightarrow> vec3" where
  "Vec3_add (x, y, z) (a, b, c) = (x + a, y + b, z + c)"

fun Vec3_subtract :: "vec3 \<Rightarrow> vec3 \<Rightarrow> vec3" where
  "Vec3_subtract (x, y, z) (a, b, c) = (x - a, y - b, z - c)"

fun Vec3_dot :: "vec3 \<Rightarrow> vec3 \<Rightarrow> real" where
  "Vec3_dot (x, y, z) (a, b, c) = x * a + y * b + z * c"

definition Vec3_magnitude :: "vec3 \<Rightarrow> real" where
  "Vec3_magnitude v = sqrt (Vec3_dot v v)"

fun Vec3_divide :: "vec3 \<Rightarrow> real \<Rightarrow> vec3 option" where
  "Vec3_divide (x, y, z) divisor =
     (if divisor = 0 then None else Some (x / divisor, y / divisor, z / divisor))"

definition Vec3_normalize :: "vec3 \<Rightarrow> vec3 option" where
  "Vec3_normalize v = Vec3_divide v (Vec3_magnitude v)"

definition Vec3_distanceTo :: "vec3 \<Rightarrow> vec3 \<Rightarrow> real" where
  "Vec3_distanceTo v w = Vec3_magnitude (Vec3_subtract v w)"

text \<open>
  The globe is a collaborator of the fragment and not part of the sources: its
  conversions and its equatorial radius are parameters of the model. The conversions
  return the result object they are given; a point is converted to a
  \<^verbatim>\<open>Position\<close>.
\<close>

record globe =
  computePointFromPosition :: "real \<Rightarrow> real \<Rightarrow> real \<Rightarrow> vec3"
  computePointFromLocation :: "real \<Rightarrow> real \<Rightarrow> vec3"
  computePositionFromPoint :: "real \<Rightarrow> real \<Rightarrow> real \<Rightarrow> location"
  equatorialRadius :: real

subsection \<open>Boundaries, their center and their average distance\<close>

text \<open>
  A boundary is a JavaScript array. Each element is a location (flat boundary) or an
  array of locations (a ring). The program takes the boundary for a sequence of rings
  when \<^verbatim>\<open>locations.length > 0 && locations[0].length > 2\<close>; a location has no
  \<^verbatim>\<open>length\<close>, so the comparison is false for it.
\<close>

datatype entry = Loc location | Ring "location list"

fun firstIsRing :: "entry list \<Rightarrow> bool" where
  "firstIsRing [] = False"
| "firstIsRing (Loc l # es) = False"
| "firstIsRing (Ring r # es) = (length r > 2)"

text \<open>
  The loops of \<^verbatim>\<open>getCenter\<close> carry the running sum and the count. In the loop over
  rings an element that is a location has no \<^verbatim>\<open>length\<close> and its inner loop does not
  run. In the flat loop an element that is an array has no \<^verbatim>\<open>latitude\<close>.
\<close>

fun addRing :: "globe \<Rightarrow> location list \<Rightarrow> vec3 \<times> nat \<Rightarrow> vec3 \<times> nat" where
  "addRing g [] (center, count) = (center, count)"
| "addRing g (l # ls) (center, count) =
     addRing g ls
       (Vec3_add center (computePointFromPosition g (latitude l) (longitude l) 0), count + 1)"

fun addRings :: "globe \<Rightarrow> entry list \<Rightarrow> vec3 \<times> nat \<Rightarrow> vec3 \<times> nat" where
  "addRings g [] s = s"
| "addRings g (Ring r # es) s = addRings g es (addRing g r s)"
| "addRings g (Loc l # es) s = addRings g es s"

fun addFlat :: "globe \<Rightarrow> entry list \<Rightarrow> vec3 \<times> nat \<Rightarrow> failure + vec3 \<times> nat" where
  "addFlat g [] s = Inr s"
| "addFlat g (Loc l # es) (center, count) =
     addFlat g es
       (Vec3_add center (computePointFromPosition g (latitude l) (longitude l) 0), count + 1)"
| "addFlat g (Ring r # es) s = Inl UndefinedCoordinate"

definition averagePosition :: "globe \<Rightarrow> vec3 \<times> nat \<Rightarrow> failure + location" where
  "averagePosition g s =
     (case s of (center, count) \<Rightarrow>
        (case Vec3_divide center (real count) of
           None \<Rightarrow> Inl DivisionByZero
         | Some (x, y, z) \<Rightarrow> Inr (computePositionFromPoint g x y z)))"

definition getCenter :: "globe \<Rightarrow> entry list \<Rightarrow> failure + location" where
  "getCenter g locations =
     (if firstIsRing locations then averagePosition g (addRings g locations ((0, 0, 0), 0))
      else if length locations \<ge> 2 then
        (case addFlat g locations ((0, 0, 0), 0) of
           Inl e \<Rightarrow> Inl e
         | Inr s \<Rightarrow> averagePosition g s)
      else averagePosition g ((0, 0, 0), 0))"

text \<open>
  \<^verbatim>\<open>getAverageDistance\<close> reads \<^verbatim>\<open>latitude\<close> and \<^verbatim>\<open>longitude\<close> of every element,
  so its locations are a flat sequence. The loop divides by the count only when it
  runs, that is when the count is positive.
\<close>

fun totalDistance :: "globe \<Rightarrow> vec3 \<Rightarrow> nat \<Rightarrow> location list \<Rightarrow> real \<Rightarrow> real" where
  "totalDistance g centerPoint count [] sofar = sofar"
| "totalDistance g centerPoint count (l # ls) sofar =
     (let distance = Vec3_distanceTo (computePointFromLocation g (latitude l) (longitude l))
                       centerPoint
      in totalDistance g centerPoint count ls (sofar + distance / real count))"

definition getAverageDistance :: "globe \<Rightarrow> location \<Rightarrow> location list \<Rightarrow> real" where
  "getAverageDistance g center locations =
     (let count = length locations;
          centerPoint = computePointFromLocation g (latitude center) (longitude center);
          sofar = totalDistance g centerPoint count locations 0
      in if count = 0 then 0 else sofar / equatorialRadius g)"

subsection \<open>The nearest point on a segment and the insertion of a vertex\<close>

text \<open>
  \<^verbatim>\<open>nearestPointOnSegment(p1, p2, point)\<close>. The arguments are three different vectors.
  \<^verbatim>\<open>p2.subtract(p1)\<close> leaves the segment in \<^verbatim>\<open>p2\<close> itself, so \<^verbatim>\<open>segment\<close> and
  \<^verbatim>\<open>p2\<close> are one vector from then on, and \<^verbatim>\<open>return p2\<close> hands back the vector that
  holds the segment. \<^verbatim>\<open>p1\<close> is never written.

  \<^verbatim>\<open>Vec3.fromLine\<close> is not part of the sources, and the source marks the call
  \<^verbatim>\<open>FIXME This is broken\<close>; what it returns is a parameter of the model.

  When \<^verbatim>\<open>p1\<close> and \<^verbatim>\<open>p2\<close> hold the same point the direction is not a number, neither
  is \<^verbatim>\<open>dot\<close>, both comparisons are false and the last branch is entered with
  arguments that are not numbers: the model reports \<open>NotANumber\<close>.
\<close>

definition nearestPointOnSegment ::
  "(vec3 \<Rightarrow> real \<Rightarrow> vec3 \<Rightarrow> vec3) \<Rightarrow> vec3 \<Rightarrow> vec3 \<Rightarrow> vec3 \<Rightarrow> failure + vec3" where
  "nearestPointOnSegment fromLine p1 p2 point =
     (let segment = Vec3_subtract p2 p1;
          p2 = segment;
          segmentCopy = segment
      in case Vec3_normalize segmentCopy of
           None \<Rightarrow> Inl NotANumber
         | Some dir \<Rightarrow>
             (let dot = Vec3_dot (Vec3_subtract point p1) dir
              in if dot < 0 then Inr p1
                 else if dot > Vec3_magnitude segment then Inr p2
                 else Inr (fromLine p1 dot dir)))"

text \<open>
  Besides values that are not numbers a call can end in an exception: reading an
  identifier that is bound nowhere is a \<^verbatim>\<open>ReferenceError\<close>, reading a property of
  \<^verbatim>\<open>undefined\<close> or calling what is not a function a \<^verbatim>\<open>TypeError\<close>, and an
  abstract method of the fragment throws its own error.
\<close>

datatype exception = ReferenceError string | TypeError string | AbstractInvocation string

text \<open>
  The identifiers bound where the methods are defined: the nine parameters of the
  module function (lines 19 to 38 of the source) and its local variable. Of the names
  of the global object the source uses \<^verbatim>\<open>define\<close>, \<^verbatim>\<open>Number\<close>, \<^verbatim>\<open>Math\<close> and
  \<^verbatim>\<open>WorldWind\<close>. \<^verbatim>\<open>SurfacePolygon\<close>, which \<^verbatim>\<open>addNewControlPoint\<close> reads, is not
  among them. \<open>readIdentifier\<close> evaluates a name; a class is known by its name.
\<close>

definition moduleScope :: "string list" where
  "moduleScope = [''Angle'', ''Location'', ''Logger'', ''Path'', ''Placemark'', ''Position'',
                  ''ShapeAttributes'', ''UnsupportedOperationError'', ''Vec3'',
                  ''BaseSurfaceEditorFragment'']"

definition globalScope :: "string list" where
  "globalScope = [''define'', ''Number'', ''Math'', ''WorldWind'']"

definition readIdentifier :: "string \<Rightarrow> exception + string" where
  "readIdentifier name =
     (if name \<in> set (moduleScope @ globalScope) then Inr name else Inl (ReferenceError name))"

text \<open>
  What \<^verbatim>\<open>addNewControlPoint\<close> uses of the fragment it is called on. The constructor
  of the base fragment sets no field, so each of them may be \<^verbatim>\<open>undefined\<close>:
  \<^verbatim>\<open>this._shape\<close>, of which only the class matters; \<^verbatim>\<open>this._worldWindow\<close>, of which
  only the globe is read, for the second end point of every edge; the method
  \<^verbatim>\<open>removeControlPoints\<close>, which the base fragment does not define; and
  \<^verbatim>\<open>updateControlElements\<close>, which throws unless a concrete fragment overrides it.
  The fields of the model say which class the shape has, which globe the window has,
  and whether the two methods are there.
\<close>

record fragment =
  shapeClass :: "string option"
  worldWindowGlobe :: "globe option"
  definesRemoveControlPoints :: bool
  overridesUpdateControlElements :: bool

text \<open>
  \<^verbatim>\<open>object instanceof constructor\<close>, for a constructor that has been evaluated;
  \<^verbatim>\<open>undefined\<close> is an instance of nothing.
\<close>

definition instanceof :: "string option \<Rightarrow> string \<Rightarrow> bool" where
  "instanceof obj cls = (obj = Some cls)"

text \<open>\<^verbatim>\<open>Number.MAX_VALUE\<close>, the largest finite number.\<close>

definition MAX_VALUE :: real where
  "MAX_VALUE = (2 ^ 53 - 1) * 2 ^ 971"

record nearest =
  nearestPoint :: "vec3 option"
  nearestSegmentIndex :: nat
  nearestDistance :: real

text \<open>
  One round of the loop of \<^verbatim>\<open>addNewControlPoint\<close>, for the edge \<open>i\<close>. The edges are
  numbered from 1 to the length of the boundary; edge \<open>i\<close> runs from
  \<^verbatim>\<open>locations[i - 1]\<close> to \<^verbatim>\<open>locations[i]\<close>, the last one back to \<^verbatim>\<open>locations[0]\<close>.
  The round begins with the test \<^verbatim>\<open>!(this._shape instanceof SurfacePolygon) && i ==
  locations.length\<close>, whose left operand is evaluated first and evaluates the
  identifier \<^verbatim>\<open>SurfacePolygon\<close>. A distance that is not a number is not less than the
  nearest distance so far. The locations are read as a flat sequence.
\<close>

definition scanEdge ::
  "(vec3 \<Rightarrow> real \<Rightarrow> vec3 \<Rightarrow> vec3) \<Rightarrow> fragment \<Rightarrow> globe \<Rightarrow> vec3 \<Rightarrow> real \<Rightarrow> location list \<Rightarrow> nat
     \<Rightarrow> nearest \<Rightarrow> exception + nearest" where
  "scanEdge fromLine this g pointPicked alt locations i st =
     (case readIdentifier ''SurfacePolygon'' of
        Inl e \<Rightarrow> Inl e
      | Inr SurfacePolygon \<Rightarrow>
          if \<not> instanceof (shapeClass this) SurfacePolygon \<and> i = length locations then Inr st
          else
            (let locationA = locations ! (i - 1);
                 locationB = locations ! (if i = length locations then 0 else i);
                 pointA = computePointFromPosition g (latitude locationA) (longitude locationA) alt
             in case worldWindowGlobe this of
                  None \<Rightarrow> Inl (TypeError ''this._worldWindow is undefined'')
                | Some wwGlobe \<Rightarrow>
                    (let pointB = computePointFromPosition wwGlobe
                                    (latitude locationB) (longitude locationB) alt
                     in case nearestPointOnSegment fromLine pointA pointB pointPicked of
                          Inl e \<Rightarrow> Inr st
                        | Inr pointOnEdge \<Rightarrow>
                            (let distance = Vec3_distanceTo pointOnEdge pointPicked
                             in if distance < nearestDistance st
                                then Inr \<lparr>nearestPoint = Some pointOnEdge,
                                          nearestSegmentIndex = i,
                                          nearestDistance = distance\<rparr>
                                else Inr st))))"

fun scanEdges ::
  "(vec3 \<Rightarrow> real \<Rightarrow> vec3 \<Rightarrow> vec3) \<Rightarrow> fragment \<Rightarrow> globe \<Rightarrow> vec3 \<Rightarrow> real \<Rightarrow> location list
     \<Rightarrow> nat list \<Rightarrow> nearest \<Rightarrow> exception + nearest" where
  "scanEdges fromLine this g pointPicked alt locations [] st = Inr st"
| "scanEdges fromLine this g pointPicked alt locations (i # is) st =
     (case scanEdge fromLine this g pointPicked alt locations i st of
        Inl e \<Rightarrow> Inl e
      | Inr st' \<Rightarrow> scanEdges fromLine this g pointPicked alt locations is st')"

text \<open>
  The three statements after the insertion: \<^verbatim>\<open>this.removeControlPoints()\<close>,
  \<^verbatim>\<open>this._shape.boundaries = locations\<close> and \<^verbatim>\<open>this.updateControlElements()\<close>.
\<close>

definition rebuildControlElements :: "fragment \<Rightarrow> exception + unit" where
  "rebuildControlElements this =
     (if \<not> definesRemoveControlPoints this
      then Inl (TypeError ''this.removeControlPoints is not a function'')
      else if shapeClass this = None then Inl (TypeError ''this._shape is undefined'')
      else if \<not> overridesUpdateControlElements this
      then Inl (AbstractInvocation ''updateControlElements'')
      else Inr ())"

text \<open>
  \<^verbatim>\<open>addNewControlPoint(globe, terrainPosition, altitude, locations)\<close> changes the
  array \<^verbatim>\<open>locations\<close> by \<^verbatim>\<open>push\<close> or \<^verbatim>\<open>splice\<close>. The model returns the array as
  the call leaves it, together with the exception that ended the call (\<open>Inl\<close>) or the
  fact that it returned (\<open>Inr\<close>).
\<close>

definition addNewControlPoint ::
  "(vec3 \<Rightarrow> real \<Rightarrow> vec3 \<Rightarrow> vec3) \<Rightarrow> fragment \<Rightarrow> globe \<Rightarrow> location \<Rightarrow> real \<Rightarrow> location list
     \<Rightarrow> location list \<times> (exception + unit)" where
  "addNewControlPoint fromLine this g terrainPosition alt locations =
     (let pointPicked = computePointFromPosition g (latitude terrainPosition)
                          (longitude terrainPosition) alt
      in case scanEdges fromLine this g pointPicked alt locations
                [1 ..< Suc (length locations)]
                \<lparr>nearestPoint = None, nearestSegmentIndex = 0, nearestDistance = MAX_VALUE\<rparr> of
           Inl e \<Rightarrow> (locations, Inl e)
         | Inr st \<Rightarrow>
             (case nearestPoint st of
                None \<Rightarrow> (locations, Inr ())
              | Some (x, y, z) \<Rightarrow>
                  (let nearestLocation = computePositionFromPoint g x y z;
                       locations = (if nearestSegmentIndex st = length locations
                                    then locations @ [nearestLocation]
                                    else take (nearestSegmentIndex st) locations
                                           @ [nearestLocation]
                                           @ drop (nearestSegmentIndex st) locations)
                   in (locations, rebuildControlElements this))))"

subsection \<open>Arrays and locations as objects\<close>

text \<open>
  \<^verbatim>\<open>deepCopyLocations\<close> and \<^verbatim>\<open>rotateLocations\<close> create and overwrite objects that
  other arrays may share, so for them arrays and locations are objects in a store, known
  by their addresses. The store keeps three kinds of objects: the locations; the rings,
  which are arrays of locations; and the arrays handed to the functions as
  \<^verbatim>\<open>locations\<close>, whose elements are locations (a flat boundary) or rings. An address
  is an index into the list of its kind; a new object is put at the end, so its address
  is new.
\<close>

datatype ref = LocRef nat | RingRef nat

record store =
  locObjs :: "location list"
  rings :: "nat list list"
  tops :: "ref list list"

text \<open>
  What a boundary holds, read from the store: the value of each location, ring by
  ring. This is what \<^verbatim>\<open>getCenter\<close> reads.
\<close>

definition ringView :: "store \<Rightarrow> nat \<Rightarrow> location list" where
  "ringView s r = map (\<lambda>p. locObjs s ! p) (rings s ! r)"

fun entryView :: "store \<Rightarrow> ref \<Rightarrow> entry" where
  "entryView s (LocRef p) = Loc (locObjs s ! p)"
| "entryView s (RingRef r) = Ring (ringView s r)"

definition view :: "store \<Rightarrow> nat \<Rightarrow> entry list" where
  "view s a = map (entryView s) (tops s ! a)"

text \<open>
  In a well-formed store every address in the array and in its rings is the address
  of an object.
\<close>

fun refOk :: "store \<Rightarrow> ref \<Rightarrow> bool" where
  "refOk s (LocRef p) = (p < length (locObjs s))"
| "refOk s (RingRef r) = (r < length (rings s) \<and> (\<forall>p \<in> set (rings s ! r). p < length (locObjs s)))"

definition wellFormed :: "store \<Rightarrow> nat \<Rightarrow> bool" where
  "wellFormed s a = (a < length (tops s) \<and> (\<forall>e \<in> set (tops s ! a). refOk s e))"

text \<open>
  \<^verbatim>\<open>new Location(latitude, longitude)\<close>, the array literal \<^verbatim>\<open>[]\<close> for a ring and
  for the result, and \<^verbatim>\<open>push\<close>. (The constructor of \<^verbatim>\<open>Location\<close> is not part of the
  sources; it stores its two arguments.)
\<close>

definition new_Location :: "store \<Rightarrow> real \<Rightarrow> real \<Rightarrow> store \<times> nat" where
  "new_Location s lat lon = (s\<lparr>locObjs := locObjs s @ [Location lat lon]\<rparr>, length (locObjs s))"

definition new_ring :: "store \<Rightarrow> store \<times> nat" where
  "new_ring s = (s\<lparr>rings := rings s @ [[]]\<rparr>, length (rings s))"

definition new_top :: "store \<Rightarrow> store \<times> nat" where
  "new_top s = (s\<lparr>tops := tops s @ [[]]\<rparr>, length (tops s))"

definition push_ring :: "store \<Rightarrow> nat \<Rightarrow> nat \<Rightarrow> store" where
  "push_ring s r p = s\<lparr>rings := (rings s)[r := rings s ! r @ [p]]\<rparr>"

definition push_top :: "store \<Rightarrow> nat \<Rightarrow> ref \<Rightarrow> store" where
  "push_top s a e = s\<lparr>tops := (tops s)[a := tops s ! a @ [e]]\<rparr>"

subsection \<open>Deep copies of a boundary\<close>

text \<open>
  The test \<^verbatim>\<open>locations.length > 0 && locations[0].length > 2\<close> on the store.
\<close>

fun firstHasLength :: "store \<Rightarrow> ref list \<Rightarrow> bool" where
  "firstHasLength s [] = False"
| "firstHasLength s (LocRef p # es) = False"
| "firstHasLength s (RingRef r # es) = (length (rings s ! r) > 2)"

text \<open>
  The loops of \<^verbatim>\<open>deepCopyLocations\<close>. The source arrays are not written by the loops,
  so their elements are taken once; each location is read when it is copied. In the
  loop over rings an element that is a location has no \<^verbatim>\<open>length\<close>: its inner loop
  does not run and an empty ring is pushed. In the flat loop an element that is an array
  has neither \<^verbatim>\<open>latitude\<close> nor \<^verbatim>\<open>longitude\<close>: the copy would hold a location
  without coordinates, which the model reports as \<open>UndefinedCoordinate\<close>.
\<close>

fun copyRing :: "nat \<Rightarrow> nat list \<Rightarrow> store \<Rightarrow> store" where
  "copyRing ring [] s = s"
| "copyRing ring (p # ps) s =
     (let (s1, q) = new_Location s (latitude (locObjs s ! p)) (longitude (locObjs s ! p))
      in copyRing ring ps (push_ring s1 ring q))"

fun copyRings :: "nat \<Rightarrow> ref list \<Rightarrow> store \<Rightarrow> store" where
  "copyRings newLocations [] s = s"
| "copyRings newLocations (e # es) s =
     (let (s1, ring) = new_ring s;
          s2 = (case e of RingRef r \<Rightarrow> copyRing ring (rings s1 ! r) s1 | LocRef p \<Rightarrow> s1)
      in copyRings newLocations es (push_top s2 newLocations (RingRef ring)))"

fun copyFlat :: "nat \<Rightarrow> ref list \<Rightarrow> store \<Rightarrow> failure + store" where
  "copyFlat newLocations [] s = Inr s"
| "copyFlat newLocations (LocRef p # es) s =
     (let (s1, q) = new_Location s (latitude (locObjs s ! p)) (longitude (locObjs s ! p))
      in copyFlat newLocations es (push_top s1 newLocations (LocRef q)))"
| "copyFlat newLocations (RingRef r # es) s = Inl UndefinedCoordinate"

definition deepCopyLocations :: "store \<Rightarrow> nat \<Rightarrow> failure + store \<times> nat" where
  "deepCopyLocations s locations =
     (let (s1, newLocations) = new_top s;
          es = tops s1 ! locations
      in if firstHasLength s1 es then Inr (copyRings newLocations es s1, newLocations)
         else (case copyFlat newLocations es s1 of
                 Inl e \<Rightarrow> Inl e
               | Inr s2 \<Rightarrow> Inr (s2, newLocations)))"

subsection \<open>Rotation of a boundary\<close>

text \<open>
  The great-circle functions of \<^verbatim>\<open>Location\<close> are not part of the sources: azimuth,
  distance and destination are parameters of the model. \<^verbatim>\<open>greatCircleLocation\<close> writes
  latitude and longitude into the location it is given as result, which is the vertex
  itself; an altitude stays.
\<close>

record great_circle =
  greatCircleAzimuth :: "location \<Rightarrow> location \<Rightarrow> real"
  greatCircleDistance :: "location \<Rightarrow> location \<Rightarrow> real"
  greatCircleLocation :: "location \<Rightarrow> real \<Rightarrow> real \<Rightarrow> real \<times> real"

fun writeResult :: "location \<Rightarrow> real \<times> real \<Rightarrow> location" where
  "writeResult (Location lat0 lon0) (lat, lon) = Location lat lon"
| "writeResult (Position lat0 lon0 alt) (lat, lon) = Position lat lon alt"

text \<open>
  The body of the loops of \<^verbatim>\<open>rotateLocations\<close>, for the vertex at address \<open>p\<close>, and
  the loops. As in \<^verbatim>\<open>getCenter\<close>, an element without \<^verbatim>\<open>length\<close> is passed over
  in the loop over rings, and an array met in the flat loop has no coordinates.
\<close>

definition rotateVertex :: "great_circle \<Rightarrow> location \<Rightarrow> real \<Rightarrow> store \<Rightarrow> nat \<Rightarrow> store" where
  "rotateVertex gc center deltaHeading s p =
     (let heading = greatCircleAzimuth gc center (locObjs s ! p);
          distance = greatCircleDistance gc center (locObjs s ! p)
      in s\<lparr>locObjs := (locObjs s)[p := writeResult (locObjs s ! p)
              (greatCircleLocation gc center (heading + deltaHeading) distance)]\<rparr>)"

fun rotateRing :: "great_circle \<Rightarrow> location \<Rightarrow> real \<Rightarrow> nat list \<Rightarrow> store \<Rightarrow> store" where
  "rotateRing gc center deltaHeading [] s = s"
| "rotateRing gc center deltaHeading (p # ps) s =
     rotateRing gc center deltaHeading ps (rotateVertex gc center deltaHeading s p)"

fun rotateRings :: "great_circle \<Rightarrow> location \<Rightarrow> real \<Rightarrow> ref list \<Rightarrow> store \<Rightarrow> store" where
  "rotateRings gc center deltaHeading [] s = s"
| "rotateRings gc center deltaHeading (RingRef r # es) s =
     rotateRings gc center deltaHeading es (rotateRing gc center deltaHeading (rings s ! r) s)"
| "rotateRings gc center deltaHeading (LocRef p # es) s =
     rotateRings gc center deltaHeading es s"

fun rotateFlat :: "great_circle \<Rightarrow> location \<Rightarrow> real \<Rightarrow> ref list \<Rightarrow> store \<Rightarrow> failure + store" where
  "rotateFlat gc center deltaHeading [] s = Inr s"
| "rotateFlat gc center deltaHeading (LocRef p # es) s =
     rotateFlat gc center deltaHeading es (rotateVertex gc center deltaHeading s p)"
| "rotateFlat gc center deltaHeading (RingRef r # es) s = Inl UndefinedCoordinate"

text \<open>
  \<^verbatim>\<open>rotateLocations\<close> returns the delta heading; the model returns the store with
  it. When the center is not a number so is everything computed from it, and the model
  returns the failure of \<^verbatim>\<open>getCenter\<close>.
\<close>

definition rotateLocations ::
  "great_circle \<Rightarrow> globe \<Rightarrow> store \<Rightarrow> location \<Rightarrow> location \<Rightarrow> nat \<Rightarrow> failure + store \<times> real" where
  "rotateLocations gc g s terrainPosition previousPosition locations =
     (case getCenter g (view s locations) of
        Inl e \<Rightarrow> Inl e
      | Inr center \<Rightarrow>
          (let previousHeading = greatCircleAzimuth gc center previousPosition;
               deltaHeading = greatCircleAzimuth gc center terrainPosition - previousHeading;
               es = tops s ! locations
           in if firstHasLength s es
              then Inr (rotateRings gc center deltaHeading es s, deltaHeading)
              else if length es \<ge> 2
              then (case rotateFlat gc center deltaHeading es s of
                      Inl e \<Rightarrow> Inl e
                    | Inr s' \<Rightarrow> Inr (s', deltaHeading))
              else Inr (s, deltaHeading)))"

subsection \<open>Notions for stating the properties\<close>

text \<open>
  The copy of a location is a \<^verbatim>\<open>Location\<close> with its latitude and longitude; the copy
  of an element of a boundary is the element with every location copied.
\<close>

definition asLocation :: "location \<Rightarrow> location" where
  "asLocation l = Location (latitude l) (longitude l)"

fun copyOf :: "entry \<Rightarrow> entry" where
  "copyOf (Loc l) = Loc (asLocation l)"
| "copyOf (Ring ls) = Ring (map asLocation ls)"

text \<open>
  The addresses of the locations and of the rings that a boundary reaches, and the two
  kinds of boundary: a flat sequence of locations, and a sequence of rings that the
  program takes for one.
\<close>

fun locAddrsOf :: "store \<Rightarrow> ref \<Rightarrow> nat set" where
  "locAddrsOf s (LocRef p) = {p}"
| "locAddrsOf s (RingRef r) = set (rings s ! r)"

definition locAddrs :: "store \<Rightarrow> nat \<Rightarrow> nat set" where
  "locAddrs s a = (\<Union>e \<in> set (tops s ! a). locAddrsOf s e)"

definition ringAddrs :: "store \<Rightarrow> nat \<Rightarrow> nat set" where
  "ringAddrs s a = {r. RingRef r \<in> set (tops s ! a)}"

fun isLocRef :: "ref \<Rightarrow> bool" where
  "isLocRef (LocRef p) = True"
| "isLocRef (RingRef r) = False"

fun isRingRef :: "ref \<Rightarrow> bool" where
  "isRingRef (LocRef p) = False"
| "isRingRef (RingRef r) = True"

definition flatBoundary :: "store \<Rightarrow> nat \<Rightarrow> bool" where
  "flatBoundary s a = list_all isLocRef (tops s ! a)"

definition ringedBoundary :: "store \<Rightarrow> nat \<Rightarrow> bool" where
  "ringedBoundary s a = (firstHasLength s (tops s ! a) \<and> list_all isRingRef (tops s ! a))"

text \<open>
  For the proofs about \<^verbatim>\<open>deepCopyLocations\<close>: a store extends another when it has
  the same objects and more; one round of either loop in closed form; and what the
  loops establish, namely that the new array has gained the copies \<open>T\<close> of the
  elements \<open>es\<close>, all at new addresses.
\<close>

definition extends :: "store \<Rightarrow> store \<Rightarrow> bool" where
  "extends s s' = ((\<exists>L. locObjs s' = locObjs s @ L) \<and> (\<exists>R. rings s' = rings s @ R))"

definition ringStep :: "nat \<Rightarrow> store \<Rightarrow> nat \<Rightarrow> store" where
  "ringStep new s r =
     s\<lparr>locObjs := locObjs s @ map (\<lambda>p. asLocation (locObjs s ! p)) (rings s ! r),
       rings := rings s @ [[length (locObjs s) ..< length (locObjs s) + length (rings s ! r)]],
       tops := (tops s)[new := tops s ! new @ [RingRef (length (rings s))]]\<rparr>"

definition flatStep :: "nat \<Rightarrow> store \<Rightarrow> nat \<Rightarrow> store" where
  "flatStep new s p =
     s\<lparr>locObjs := locObjs s @ [asLocation (locObjs s ! p)],
       tops := (tops s)[new := tops s ! new @ [LocRef (length (locObjs s))]]\<rparr>"

definition freshCopy :: "store \<Rightarrow> store \<Rightarrow> nat \<Rightarrow> ref list \<Rightarrow> ref list \<Rightarrow> bool" where
  "freshCopy s s' new es T =
     (extends s s' \<and> length (tops s') = length (tops s)
      \<and> (\<forall>b. b \<noteq> new \<longrightarrow> tops s' ! b = tops s ! b)
      \<and> tops s' ! new = tops s ! new @ T
      \<and> map (entryView s') T = map (\<lambda>e. copyOf (entryView s e)) es
      \<and> (\<forall>e \<in> set T. refOk s' e
            \<and> (\<forall>r. e = RingRef r \<longrightarrow> length (rings s) \<le> r)
            \<and> (\<forall>q \<in> locAddrsOf s' e. length (locObjs s) \<le> q)))"

text \<open>
  For \<^verbatim>\<open>rotateLocations\<close>: the vertex \<open>v\<close> moved to its azimuth from the center plus
  the delta, at its distance from the center; a function applied to every location
  of an element; and the addresses of the vertices in the order in which the loops
  visit them.
\<close>

definition rotated :: "great_circle \<Rightarrow> location \<Rightarrow> real \<Rightarrow> location \<Rightarrow> location" where
  "rotated gc center delta v =
     writeResult v (greatCircleLocation gc center (greatCircleAzimuth gc center v + delta)
                      (greatCircleDistance gc center v))"

fun mapEntry :: "(location \<Rightarrow> location) \<Rightarrow> entry \<Rightarrow> entry" where
  "mapEntry f (Loc l) = Loc (f l)"
| "mapEntry f (Ring ls) = Ring (map f ls)"

fun addrsOf :: "store \<Rightarrow> ref \<Rightarrow> nat list" where
  "addrsOf s (LocRef p) = [p]"
| "addrsOf s (RingRef r) = rings s ! r"

definition vertexAddrs :: "store \<Rightarrow> nat \<Rightarrow> nat list" where
  "vertexAddrs s a = concat (map (addrsOf s) (tops s ! a))"

text \<open>
  Two properties that great-circle functions may have. \<open>keepsDistance\<close>: the
  destination from a center at the distance of a location, in whatever direction, lies
  at that distance from the center, up to a tolerance; with the tolerance 0 it lies at
  that distance exactly. \<open>returnsTo\<close>: the destination from the center at
  the azimuth and the distance of the location \<open>v\<close> has the coordinates of \<open>v\<close>. The
  second one is a property of a single location: functions that depend only on the
  point of the sphere have it for one pair of coordinates of a point at most, not for
  the longitudes 10 and 370 at once.
\<close>

definition keepsDistance :: "great_circle \<Rightarrow> real \<Rightarrow> bool" where
  "keepsDistance gc tolerance =
     (\<forall>c v a. \<bar>greatCircleDistance gc c
                   (writeResult v (greatCircleLocation gc c a (greatCircleDistance gc c v)))
                 - greatCircleDistance gc c v\<bar> \<le> tolerance)"

definition returnsTo :: "great_circle \<Rightarrow> location \<Rightarrow> location \<Rightarrow> bool" where
  "returnsTo gc c v =
     (greatCircleLocation gc c (greatCircleAzimuth gc c v) (greatCircleDistance gc c v)
        = (latitude v, longitude v))"

text \<open>
  The spec's notion of the center: the mean of the cartesian points of the vertices,
  each taken at altitude zero, converted back to a position. It is stated by
  components, apart from the loops of \<^verbatim>\<open>getCenter\<close>.
\<close>

definition pointOf :: "globe \<Rightarrow> location \<Rightarrow> vec3" where
  "pointOf g l = computePointFromPosition g (latitude l) (longitude l) 0"

definition centroid :: "globe \<Rightarrow> location list \<Rightarrow> location" where
  "centroid g ls =
     computePositionFromPoint g
       (sum_list (map (\<lambda>l. fst (pointOf g l)) ls) / real (length ls))
       (sum_list (map (\<lambda>l. fst (snd (pointOf g l))) ls) / real (length ls))
       (sum_list (map (\<lambda>l. snd (snd (pointOf g l))) ls) / real (length ls))"

subsection \<open>Concrete inputs\<close>

text \<open>
  A globe on which the functions can be evaluated: the plane, where latitude,
  longitude and altitude are the cartesian coordinates themselves. With it go
  great-circle functions on a chart that is periodic in the longitude, as the sphere
  is: the azimuth is the difference of the longitudes and the distance the difference
  of the latitudes, and azimuths and longitudes are brought into the range from
  \<open>- 180\<close> to \<open>180\<close>.
\<close>

definition planar :: globe where
  "planar = \<lparr>computePointFromPosition = (\<lambda>lat lon alt. (lat, lon, alt)),
             computePointFromLocation = (\<lambda>lat lon. (lat, lon, 0)),
             computePositionFromPoint = (\<lambda>x y z. Position x y z),
             equatorialRadius = 1\<rparr>"

definition wrap180 :: "real \<Rightarrow> real" where
  "wrap180 x = x - 360 * of_int \<lfloor>(x + 180) / 360\<rfloor>"

definition chart :: great_circle where
  "chart = \<lparr>greatCircleAzimuth = (\<lambda>c p. wrap180 (longitude p - longitude c)),
            greatCircleDistance = (\<lambda>c p. latitude p - latitude c),
            greatCircleLocation = (\<lambda>c a d. (latitude c + d, wrap180 (longitude c + a)))\<rparr>"

text \<open>
  Modelled from the spec: the point on a line that the last branch of
  \<^verbatim>\<open>nearestPointOnSegment\<close> is meant to return, \<^verbatim>\<open>p1 + dot * dir\<close>.
\<close>

definition fromLine_spec :: "vec3 \<Rightarrow> real \<Rightarrow> vec3 \<Rightarrow> vec3" where
  "fromLine_spec origin t direction =
     (case origin of (x, y, z) \<Rightarrow> case direction of (a, b, c) \<Rightarrow> (x + t * a, y + t * b, z + t * c))"

text \<open>
  A square as a flat boundary of four locations; a boundary of three elements whose
  first and last element are one and the same location; and a boundary of two
  locations whose longitudes are written as 370 and 372.
\<close>

definition squareStore :: store where
  "squareStore = \<lparr>locObjs = [Location 0 0, Location 0 2, Location 2 2, Location 2 0], rings = [],
                   tops = [[LocRef 0, LocRef 1, LocRef 2, LocRef 3]]\<rparr>"

definition sharedStore :: store where
  "sharedStore = \<lparr>locObjs = [Location 0 0, Location 6 0], rings = [],
                   tops = [[LocRef 0, LocRef 1, LocRef 0]]\<rparr>"

definition farStore :: store where
  "farStore = \<lparr>locObjs = [Location 0 370, Location 0 372], rings = [],
                tops = [[LocRef 0, LocRef 1]]\<rparr>"

text \<open>
  A fragment as a concrete editor would set it up for a polygon: the shape is a
  \<^verbatim>\<open>SurfacePolygon\<close>, the window has the planar globe, and both methods are there.
\<close>

definition polygonFragment :: fragment where
  "polygonFragment = \<lparr>shapeClass = Some ''SurfacePolygon'', worldWindowGlobe = Some planar,
                        definesRemoveControlPoints = True,
                        overridesUpdateControlElements = True\<rparr>"

section \<open>Rounding to doubles\<close>

text \<open>
  Rounding to the nearest integer is monotone, odd and off by a half at most.
\<close>

lemma rne_of_int: "rne (of_int k) = k"
  by (simp add: rne_def)

lemma rne_cases: "rne y = \<lfloor>y\<rfloor> \<or> rne y = \<lfloor>y\<rfloor> + 1"
  by (simp add: rne_def Let_def)

lemma rne_err: "\<bar>of_int (rne y) - y\<bar> \<le> 1 / 2"
  unfolding rne_def Let_def by (auto; linarith)

lemma rne_mono: assumes "y \<le> z" shows "rne y \<le> rne z"
proof -
  have fm: "\<lfloor>y\<rfloor> \<le> \<lfloor>z\<rfloor>" using assms by (rule floor_mono)
  show ?thesis
  proof (cases "\<lfloor>y\<rfloor> = \<lfloor>z\<rfloor>")
    case True
    then show ?thesis using assms unfolding rne_def Let_def by (auto; linarith)
  next
    case False
    then have "\<lfloor>y\<rfloor> + 1 \<le> \<lfloor>z\<rfloor>" using fm by linarith
    moreover have "rne y \<le> \<lfloor>y\<rfloor> + 1" using rne_cases[of y] by linarith
    moreover have "\<lfloor>z\<rfloor> \<le> rne z" using rne_cases[of z] by linarith
    ultimately show ?thesis by linarith
  qed
qed

lemma rne_minus: "rne (- y) = - rne y"
proof (cases "y = of_int \<lfloor>y\<rfloor>")
  case True
  then obtain k where "y = of_int k" by metis
  then show ?thesis using rne_of_int[of k] rne_of_int[of "-k"] by simp
next
  case False
  then have lt: "of_int \<lfloor>y\<rfloor> < y" using of_int_floor_le[of y] by linarith
  have "\<lfloor>- y\<rfloor> = - \<lfloor>y\<rfloor> - 1"
    unfolding floor_eq_iff using lt by (simp; linarith)
  then show ?thesis
    unfolding rne_def Let_def using lt by (auto; linarith)
qed


lemma spacing_pos: "0 < spacing x"
  by (simp add: spacing_def)

lemma spacing_minus: "spacing (- x) = spacing x"
  by (simp add: spacing_def expo_def)

lemma fl_minus: "fl (- x) = - fl x"
  by (simp add: fl_def spacing_minus rne_minus)

lemma fl_0: "fl 0 = 0"
  by (simp add: fl_def)

lemma rne_0: "rne 0 = 0"
  using rne_of_int[of 0] by simp

lemma floor_log_bounds:
  assumes "x \<noteq> 0"
  shows "2 powr of_int \<lfloor>log 2 \<bar>x\<bar>\<rfloor> \<le> \<bar>x\<bar>" and "\<bar>x\<bar> < 2 powr of_int (\<lfloor>log 2 \<bar>x\<bar>\<rfloor> + 1)"
  using floor_log_eq_powr_iff[of "\<bar>x\<bar>" 2 "\<lfloor>log 2 \<bar>x\<bar>\<rfloor>"] assms by simp_all

lemma two_powr_shift: "(2::real) powr of_int (e + int n) = 2 ^ n * 2 powr of_int e"
proof -
  have "(2::real) powr of_int (e + int n) = 2 powr (of_int e + real n)" by simp
  also have "\<dots> = 2 powr of_int e * 2 powr real n" by (rule powr_add)
  also have "\<dots> = 2 ^ n * 2 powr of_int e" by (simp add: powr_realpow)
  finally show ?thesis .
qed

lemma expo_upper:
  assumes "x \<noteq> 0"
  shows "\<bar>x\<bar> < 2 ^ 53 * spacing x"
proof -
  have "\<lfloor>log 2 \<bar>x\<bar>\<rfloor> + 1 \<le> expo x + 1" by (simp add: expo_def)
  then have "(2::real) powr of_int (\<lfloor>log 2 \<bar>x\<bar>\<rfloor> + 1) \<le> 2 powr of_int (expo x + 1)"
    by (intro powr_mono) simp_all
  moreover have "expo x + 1 = (expo x - 52) + int 53" by simp
  then have "(2::real) powr of_int (expo x + 1) = 2 ^ 53 * spacing x"
    unfolding spacing_def by (simp only: two_powr_shift)
  ultimately show ?thesis using floor_log_bounds(2)[OF assms] by linarith
qed

lemma expo_lower:
  assumes "x \<noteq> 0" and "- 1022 < expo x"
  shows "2 ^ 52 * spacing x \<le> \<bar>x\<bar>"
proof -
  have "expo x = \<lfloor>log 2 \<bar>x\<bar>\<rfloor>" using assms(2) by (simp add: expo_def max_def split: if_splits)
  then have "2 powr of_int (expo x) \<le> \<bar>x\<bar>" using floor_log_bounds(1)[OF assms(1)] by simp
  moreover have "expo x = (expo x - 52) + int 52" by simp
  then have "(2::real) powr of_int (expo x) = 2 ^ 52 * spacing x"
    unfolding spacing_def by (metis two_powr_shift)
  ultimately show ?thesis by linarith
qed

lemma expo_mono:
  assumes "0 < x" and "x \<le> y"
  shows "expo x \<le> expo y"
proof -
  have "log 2 x \<le> log 2 y" using assms by simp
  then have "\<lfloor>log 2 x\<rfloor> \<le> \<lfloor>log 2 y\<rfloor>" by (rule floor_mono)
  then show ?thesis using assms by (simp add: expo_def)
qed

lemma spacing_next:
  assumes "expo x + 1 \<le> expo y"
  shows "2 * spacing x \<le> spacing y"
proof -
  have "(2::real) powr of_int ((expo x - 52) + int 1) \<le> 2 powr of_int (expo y - 52)"
    using assms by (intro powr_mono) simp_all
  then show ?thesis unfolding spacing_def two_powr_shift by simp
qed

lemma of_int_rne_le:
  assumes "y \<le> of_int k"
  shows "real_of_int (rne y) \<le> of_int k"
proof -
  have "rne y \<le> rne (of_int k)" using assms by (rule rne_mono)
  then show ?thesis by (simp only: rne_of_int of_int_le_iff)
qed

lemma of_int_rne_ge:
  assumes "of_int k \<le> y"
  shows "of_int k \<le> real_of_int (rne y)"
proof -
  have "rne (of_int k) \<le> rne y" using assms by (rule rne_mono)
  then show ?thesis by (simp only: rne_of_int of_int_le_iff)
qed

lemma fl_nonneg:
  assumes "0 \<le> x"
  shows "0 \<le> fl x"
proof (cases "x = 0")
  case True then show ?thesis by (simp add: fl_def)
next
  case False
  have "0 \<le> x / spacing x" using assms spacing_pos[of x] by simp
  then have "0 \<le> real_of_int (rne (x / spacing x))" using of_int_rne_ge[of 0] by simp
  then show ?thesis using False spacing_pos[of x] by (simp add: fl_def)
qed

lemma fl_upper:
  assumes "0 < x"
  shows "fl x \<le> 2 ^ 53 * spacing x"
proof -
  have "x < 2 ^ 53 * spacing x" using expo_upper[of x] assms by simp
  then have "x / spacing x \<le> of_int (2 ^ 53)"
    using spacing_pos[of x] by (simp add: field_simps)
  then have "real_of_int (rne (x / spacing x)) \<le> of_int (2 ^ 53)" by (rule of_int_rne_le)
  then have "real_of_int (rne (x / spacing x)) * spacing x \<le> of_int (2 ^ 53) * spacing x"
    using spacing_pos[of x] by (intro mult_right_mono) simp_all
  then show ?thesis using assms by (simp add: fl_def)
qed

lemma fl_lower:
  assumes "0 < x" and "- 1022 < expo x"
  shows "2 ^ 52 * spacing x \<le> fl x"
proof -
  have "2 ^ 52 * spacing x \<le> x" using expo_lower[of x] assms by simp
  then have "of_int (2 ^ 52) \<le> x / spacing x"
    using spacing_pos[of x] by (simp add: field_simps)
  then have "of_int (2 ^ 52) \<le> real_of_int (rne (x / spacing x))" by (rule of_int_rne_ge)
  then have "of_int (2 ^ 52) * spacing x \<le> real_of_int (rne (x / spacing x)) * spacing x"
    using spacing_pos[of x] by (intro mult_right_mono) simp_all
  then show ?thesis using assms by (simp add: fl_def)
qed

lemma fl_mono_pos:
  assumes "0 < x" and "x \<le> y"
  shows "fl x \<le> fl y"
proof (cases "expo x = expo y")
  case True
  then have s: "spacing x = spacing y" by (simp add: spacing_def)
  have "x / spacing y \<le> y / spacing y"
    using assms spacing_pos[of y] by (simp add: divide_right_mono)
  then have "rne (x / spacing y) \<le> rne (y / spacing y)" by (rule rne_mono)
  then have "real_of_int (rne (x / spacing y)) * spacing y \<le> real_of_int (rne (y / spacing y)) * spacing y"
    using spacing_pos[of y] by (intro mult_right_mono) simp_all
  then show ?thesis using assms by (simp add: fl_def s)
next
  case False
  then have lt: "expo x + 1 \<le> expo y" using expo_mono[OF assms] by linarith
  have "- 1022 \<le> expo x" by (simp add: expo_def)
  then have n: "- 1022 < expo y" using lt by linarith
  have "fl x \<le> 2 ^ 53 * spacing x" using assms by (intro fl_upper)
  also have "\<dots> \<le> 2 ^ 52 * spacing y" using spacing_next[OF lt] by simp
  also have "\<dots> \<le> fl y" using assms n by (intro fl_lower) simp_all
  finally show ?thesis .
qed

lemma fl_mono:
  assumes "x \<le> y"
  shows "fl x \<le> fl y"
proof -
  consider "0 < x" | "x \<le> 0" "0 \<le> y" | "y < 0" by linarith
  then show ?thesis
  proof cases
    case 1 then show ?thesis using assms by (rule fl_mono_pos)
  next
    case 2
    have "0 \<le> fl (- x)" using 2 by (intro fl_nonneg) simp
    then have "fl x \<le> 0" by (simp add: fl_minus)
    moreover have "0 \<le> fl y" using 2 by (intro fl_nonneg)
    ultimately show ?thesis by linarith
  next
    case 3
    have "fl (- y) \<le> fl (- x)" using 3 assms by (intro fl_mono_pos) simp_all
    then show ?thesis by (simp add: fl_minus)
  qed
qed

lemma fl_error: "\<bar>fl x - x\<bar> \<le> \<bar>x\<bar> / 2 ^ 53 + 1 / 2 ^ 1075"
proof (cases "x = 0")
  case True then show ?thesis by (simp add: fl_def)
next
  case False
  define q where "q = spacing x"
  have q: "0 < q" by (simp add: q_def spacing_pos)
  have "fl x - x = (of_int (rne (x / q)) - x / q) * q"
    using False q by (simp add: fl_def q_def field_simps)
  then have "\<bar>fl x - x\<bar> = \<bar>of_int (rne (x / q)) - x / q\<bar> * q"
    using q by (simp add: abs_mult)
  also have "\<dots> \<le> (1 / 2) * q"
    using q rne_err[of "x / q"] by (intro mult_right_mono) simp_all
  finally have e: "\<bar>fl x - x\<bar> \<le> q / 2" by simp
  have z: "(0::real) \<le> 1 / 2 ^ 1075" by simp
  have a: "0 \<le> \<bar>x\<bar> / 2 ^ 53" by simp
  show ?thesis
  proof (cases "- 1022 < expo x")
    case True
    have "2 ^ 52 * q \<le> \<bar>x\<bar>"
      using expo_lower[OF False True] by (simp add: q_def)
    then have "q / 2 \<le> \<bar>x\<bar> / 2 ^ 53" by simp
    then show ?thesis using e z by linarith
  next
    case False
    moreover have "- 1022 \<le> expo x" by (simp add: expo_def)
    ultimately have "expo x = - 1022" by linarith
    then have "q = 2 powr (- 1074)" by (simp add: q_def spacing_def)
    also have "\<dots> = 1 / 2 ^ 1074" by (simp add: powr_minus_divide)
    finally have "q / 2 = 1 / 2 ^ 1075" by simp
    then show ?thesis using e a by linarith
  qed
qed

text \<open>
  Evaluation: the double nearest to a number whose binade is known, and the nearest
  integer of a fraction.
\<close>

lemma fl_eval:
  assumes "x \<noteq> 0" and "2 powr of_int k \<le> \<bar>x\<bar>" and "\<bar>x\<bar> < 2 powr of_int (k + 1)" and "- 1022 \<le> k"
  shows "fl x = of_int (rne (x / 2 powr of_int (k - 52))) * 2 powr of_int (k - 52)"
proof -
  have "\<lfloor>log 2 \<bar>x\<bar>\<rfloor> = k"
    using floor_log_eq_powr_iff[of "\<bar>x\<bar>" 2 k] assms by simp
  then have "expo x = k" using assms(4) by (simp add: expo_def)
  then show ?thesis using assms(1) by (simp add: fl_def spacing_def)
qed

lemma fl_eval_hi:
  assumes "2 ^ n \<le> \<bar>x\<bar>" and "\<bar>x\<bar> < 2 * 2 ^ n" and "n \<le> 52"
  shows "fl x = of_int (rne (x * 2 ^ (52 - n))) / 2 ^ (52 - n)"
proof -
  have x: "x \<noteq> 0" using zero_less_power[of "2::real" n] assms(1) by linarith
  have p: "(2::real) powr of_int (int n) = 2 ^ n" by (simp add: powr_realpow)
  have p1: "(2::real) powr of_int (int n + 1) = 2 * 2 ^ n"
    using two_powr_shift[of "int n" 1] p by simp
  have "real_of_int (int n - 52) = - real (52 - n)" using assms(3) by simp
  then have "(2::real) powr of_int (int n - 52) = 2 powr (- real (52 - n))" by (simp only:)
  also have "\<dots> = 1 / 2 powr real (52 - n)" by (rule powr_minus_divide)
  also have "\<dots> = 1 / 2 ^ (52 - n)" by (simp only: powr_realpow zero_less_numeral)
  finally have q: "(2::real) powr of_int (int n - 52) = 1 / 2 ^ (52 - n)" .
  have "fl x = of_int (rne (x / 2 powr of_int (int n - 52))) * 2 powr of_int (int n - 52)"
    using x assms by (intro fl_eval) (simp_all only: p p1, simp)
  then show ?thesis unfolding q by simp
qed

lemma fl_eval_lo:
  assumes "1 / 2 ^ n \<le> \<bar>x\<bar>" and "\<bar>x\<bar> < 2 / 2 ^ n" and "n \<le> 1022"
  shows "fl x = of_int (rne (x * 2 ^ (52 + n))) / 2 ^ (52 + n)"
proof -
  have "(0::real) < 1 / 2 ^ n" by simp
  then have x: "x \<noteq> 0" using assms(1) by linarith
  have p: "(2::real) powr of_int (- int n) = 1 / 2 ^ n" by (simp add: powr_minus_divide powr_realpow)
  have p1: "(2::real) powr of_int (- int n + 1) = 2 / 2 ^ n"
    using two_powr_shift[of "- int n" 1] p by simp
  have "real_of_int (- int n - 52) = - real (52 + n)" by simp
  then have "(2::real) powr of_int (- int n - 52) = 2 powr (- real (52 + n))" by (simp only:)
  also have "\<dots> = 1 / 2 powr real (52 + n)" by (rule powr_minus_divide)
  also have "\<dots> = 1 / 2 ^ (52 + n)" by (simp only: powr_realpow zero_less_numeral)
  finally have q: "(2::real) powr of_int (- int n - 52) = 1 / 2 ^ (52 + n)" .
  have "fl x = of_int (rne (x / 2 powr of_int (- int n - 52))) * 2 powr of_int (- int n - 52)"
    using x assms by (intro fl_eval) (simp_all only: p p1, simp)
  then show ?thesis unfolding q by simp
qed

lemma rne_divide:
  assumes "0 < b"
  shows "rne (of_int a / of_int b) =
           (if 2 * (a mod b) < b then a div b
            else if 2 * (a mod b) > b then a div b + 1
            else if even (a div b) then a div b else a div b + 1)"
proof -
  have f: "\<lfloor>real_of_int a / real_of_int b\<rfloor> = a div b" by (rule floor_divide_of_int_eq)
  have "real_of_int a = real_of_int (a div b) * real_of_int b + real_of_int (a mod b)"
    by (metis div_mult_mod_eq of_int_add of_int_mult)
  then have r: "real_of_int a / real_of_int b - real_of_int (a div b) = real_of_int (a mod b) / real_of_int b"
    using assms by (simp add: field_simps)
  have lt: "(real_of_int (a mod b) / real_of_int b < 1 / 2) = (2 * (a mod b) < b)"
    using assms by (simp add: field_simps) linarith
  have gt: "(real_of_int (a mod b) / real_of_int b > 1 / 2) = (2 * (a mod b) > b)"
    using assms by (simp add: field_simps) linarith
  show ?thesis unfolding rne_def Let_def f r lt gt by simp
qed

lemma rne_numeral_divide:
  "rne (numeral a / numeral b) =
           (if 2 * (numeral a mod numeral b) < (numeral b :: int) then numeral a div numeral b
            else if 2 * (numeral a mod numeral b) > (numeral b :: int) then numeral a div numeral b + 1
            else if even (numeral a div numeral b :: int) then numeral a div numeral b
            else numeral a div numeral b + 1)"
  using rne_divide[of "numeral b" "numeral a"] by simp

lemma rne_numeral: "rne (numeral a) = numeral a"
  using rne_of_int[of "numeral a"] by simp

section \<open>Heading normalisation\<close>

text \<open>The constants of \<^verbatim>\<open>Angle\<close> as doubles.\<close>

lemma DEGREES_TO_RADIANS_eq: "DEGREES_TO_RADIANS = 5030569068109113 / 2 ^ 58"
  unfolding DEGREES_TO_RADIANS_def Math_PI_def
  by (subst fl_eval_lo[where n = 6]) (simp_all add: rne_numeral_divide)

lemma RADIANS_TO_DEGREES_eq: "RADIANS_TO_DEGREES = 1007958012753983 / 2 ^ 44"
  unfolding RADIANS_TO_DEGREES_def Math_PI_def
  by (subst fl_eval_hi[where n = 5]) (simp_all add: rne_numeral_divide)

lemma TWO_PI_eq: "TWO_PI = 884279719003555 / 2 ^ 47"
  unfolding TWO_PI_def Math_PI_def
  by (subst fl_eval_hi[where n = 2]) (simp_all add: rne_numeral_divide rne_numeral)

text \<open>
  A call of \<^verbatim>\<open>normalizedHeading\<close> step by step, and the calls the properties are
  about: a sum of a full turn; the two calls of the spec; a call whose rounded sum
  exceeds a full turn by the least possible amount, although heading and delta add
  up to 360; and a delta so small that adding a full turn to it gives a full turn.
\<close>

lemma normalizedHeading_steps:
  assumes "fl (h * DEGREES_TO_RADIANS) = a" and "fl (d * DEGREES_TO_RADIANS) = b"
    and "fl (a + b) = n"
    and "m = (if \<bar>n\<bar> > TWO_PI then js_remainder n TWO_PI else n)"
    and "x = (if m \<ge> 0 then m else fl (m + TWO_PI))"
    and "fl (RADIANS_TO_DEGREES * x) = r"
  shows "normalizedHeading h d = r"
  unfolding normalizedHeading_def Let_def assms(1,2,3) assms(4)[symmetric] assms(5)[symmetric]
  by (rule assms(6))

lemma normalizedHeading_360_0: "normalizedHeading 360 0 = 360"
proof (rule normalizedHeading_steps[where a = "884279719003555 / 2 ^ 47" and b = "0" and n = "884279719003555 / 2 ^ 47" and m = "884279719003555 / 2 ^ 47" and x = "884279719003555 / 2 ^ 47"])
  show "fl (360 * DEGREES_TO_RADIANS) = 884279719003555 / 2 ^ 47"
    unfolding DEGREES_TO_RADIANS_eq by (subst fl_eval_hi[where n = 2]) (simp_all add: rne_numeral_divide rne_numeral rne_minus)
  show "fl (0 * DEGREES_TO_RADIANS) = 0"
    by (simp add: DEGREES_TO_RADIANS_eq fl_0)
  show "fl (884279719003555 / 2 ^ 47 + 0) = 884279719003555 / 2 ^ 47"
    by (subst fl_eval_hi[where n = 2]) (simp_all add: rne_numeral_divide rne_numeral rne_minus)
  show "884279719003555 / 2 ^ 47 = (if \<bar>884279719003555 / 2 ^ 47\<bar> > TWO_PI then js_remainder (884279719003555 / 2 ^ 47) TWO_PI else 884279719003555 / 2 ^ 47)"
    by (simp add: TWO_PI_eq js_remainder_def trunc_def)
  show "884279719003555 / 2 ^ 47 = (if (884279719003555 / 2 ^ 47 :: real) \<ge> 0 then 884279719003555 / 2 ^ 47 else fl ((884279719003555 / 2 ^ 47) + TWO_PI))"
    by simp
  show "fl (RADIANS_TO_DEGREES * (884279719003555 / 2 ^ 47)) = 360"
    unfolding RADIANS_TO_DEGREES_eq by (subst fl_eval_hi[where n = 8]) (simp_all add: rne_numeral_divide rne_numeral rne_minus)
qed

lemma normalizedHeading_350_20: "normalizedHeading 350 20 = 2814749767106557 / 2 ^ 48"
proof (rule normalizedHeading_steps[where a = "1719432786951357 / 2 ^ 48" and b = "6288211335136391 / 2 ^ 54" and n = "1817686089062863 / 2 ^ 48" and m = "49126651055753 / 2 ^ 48" and x = "49126651055753 / 2 ^ 48"])
  show "fl (350 * DEGREES_TO_RADIANS) = 1719432786951357 / 2 ^ 48"
    unfolding DEGREES_TO_RADIANS_eq by (subst fl_eval_hi[where n = 2]) (simp_all add: rne_numeral_divide rne_numeral rne_minus)
  show "fl (20 * DEGREES_TO_RADIANS) = 6288211335136391 / 2 ^ 54"
    unfolding DEGREES_TO_RADIANS_eq by (subst fl_eval_lo[where n = 2]) (simp_all add: rne_numeral_divide rne_numeral rne_minus)
  show "fl (1719432786951357 / 2 ^ 48 + 6288211335136391 / 2 ^ 54) = 1817686089062863 / 2 ^ 48"
    by (subst fl_eval_hi[where n = 2]) (simp_all add: rne_numeral_divide rne_numeral rne_minus)
  show "49126651055753 / 2 ^ 48 = (if \<bar>1817686089062863 / 2 ^ 48\<bar> > TWO_PI then js_remainder (1817686089062863 / 2 ^ 48) TWO_PI else 1817686089062863 / 2 ^ 48)"
    by (simp add: TWO_PI_eq js_remainder_def trunc_def)
  show "49126651055753 / 2 ^ 48 = (if (49126651055753 / 2 ^ 48 :: real) \<ge> 0 then 49126651055753 / 2 ^ 48 else fl ((49126651055753 / 2 ^ 48) + TWO_PI))"
    by simp
  show "fl (RADIANS_TO_DEGREES * (49126651055753 / 2 ^ 48)) = 2814749767106557 / 2 ^ 48"
    unfolding RADIANS_TO_DEGREES_eq by (subst fl_eval_hi[where n = 3]) (simp_all add: rne_numeral_divide rne_numeral rne_minus)
qed

lemma normalizedHeading_0_m10: "normalizedHeading 0 (- 10) = 350"
proof (rule normalizedHeading_steps[where a = "0" and b = "- (6288211335136391 / 2 ^ 55)" and n = "- (6288211335136391 / 2 ^ 55)" and m = "- (6288211335136391 / 2 ^ 55)" and x = "1719432786951357 / 2 ^ 48"])
  show "fl (0 * DEGREES_TO_RADIANS) = 0"
    by (simp add: DEGREES_TO_RADIANS_eq fl_0)
  show "fl ((- 10) * DEGREES_TO_RADIANS) = - (6288211335136391 / 2 ^ 55)"
    unfolding DEGREES_TO_RADIANS_eq by (subst fl_eval_lo[where n = 3]) (simp_all add: rne_numeral_divide rne_numeral rne_minus)
  show "fl (0 + (- (6288211335136391 / 2 ^ 55))) = - (6288211335136391 / 2 ^ 55)"
    by (subst fl_eval_lo[where n = 3]) (simp_all add: rne_numeral_divide rne_numeral rne_minus)
  show "- (6288211335136391 / 2 ^ 55) = (if \<bar>- (6288211335136391 / 2 ^ 55)\<bar> > TWO_PI then js_remainder (- (6288211335136391 / 2 ^ 55)) TWO_PI else - (6288211335136391 / 2 ^ 55))"
    by (simp add: TWO_PI_eq js_remainder_def trunc_def)
  have "fl ((- (6288211335136391 / 2 ^ 55)) + TWO_PI) = 1719432786951357 / 2 ^ 48"
    unfolding TWO_PI_eq by (subst fl_eval_hi[where n = 2]) (simp_all add: rne_numeral_divide rne_numeral rne_minus)
  then show "1719432786951357 / 2 ^ 48 = (if (- (6288211335136391 / 2 ^ 55) :: real) \<ge> 0 then - (6288211335136391 / 2 ^ 55) else fl ((- (6288211335136391 / 2 ^ 55)) + TWO_PI))"
    by simp
  show "fl (RADIANS_TO_DEGREES * (1719432786951357 / 2 ^ 48)) = 350"
    unfolding RADIANS_TO_DEGREES_eq by (subst fl_eval_hi[where n = 8]) (simp_all add: rne_numeral_divide rne_numeral rne_minus)
qed

lemma normalizedHeading_7_353: "normalizedHeading 7 353 = 1007958012753983 / 2 ^ 94"
proof (rule normalizedHeading_steps[where a = "2200873967297737 / 2 ^ 54" and b = "1734170782268083 / 2 ^ 48" and n = "7074237752028441 / 2 ^ 50" and m = "1 / 2 ^ 50" and x = "1 / 2 ^ 50"])
  show "fl (7 * DEGREES_TO_RADIANS) = 2200873967297737 / 2 ^ 54"
    unfolding DEGREES_TO_RADIANS_eq by (subst fl_eval_lo[where n = 4]) (simp_all add: rne_numeral_divide rne_numeral rne_minus)
  show "fl (353 * DEGREES_TO_RADIANS) = 1734170782268083 / 2 ^ 48"
    unfolding DEGREES_TO_RADIANS_eq by (subst fl_eval_hi[where n = 2]) (simp_all add: rne_numeral_divide rne_numeral rne_minus)
  show "fl (2200873967297737 / 2 ^ 54 + 1734170782268083 / 2 ^ 48) = 7074237752028441 / 2 ^ 50"
    by (subst fl_eval_hi[where n = 2]) (simp_all add: rne_numeral_divide rne_numeral rne_minus)
  show "1 / 2 ^ 50 = (if \<bar>7074237752028441 / 2 ^ 50\<bar> > TWO_PI then js_remainder (7074237752028441 / 2 ^ 50) TWO_PI else 7074237752028441 / 2 ^ 50)"
    by (simp add: TWO_PI_eq js_remainder_def trunc_def)
  show "1 / 2 ^ 50 = (if (1 / 2 ^ 50 :: real) \<ge> 0 then 1 / 2 ^ 50 else fl ((1 / 2 ^ 50) + TWO_PI))"
    by simp
  show "fl (RADIANS_TO_DEGREES * (1 / 2 ^ 50)) = 1007958012753983 / 2 ^ 94"
    unfolding RADIANS_TO_DEGREES_eq by (subst fl_eval_lo[where n = 45]) (simp_all add: rne_numeral_divide rne_numeral rne_minus)
qed

lemma normalizedHeading_tiny: "normalizedHeading 0 (- (6646139978924579 / 2 ^ 119)) = 360"
proof (rule normalizedHeading_steps[where a = "0" and b = "- (7423809611562269 / 2 ^ 125)" and n = "- (7423809611562269 / 2 ^ 125)" and m = "- (7423809611562269 / 2 ^ 125)" and x = "884279719003555 / 2 ^ 47"])
  show "fl (0 * DEGREES_TO_RADIANS) = 0"
    by (simp add: DEGREES_TO_RADIANS_eq fl_0)
  show "fl ((- (6646139978924579 / 2 ^ 119)) * DEGREES_TO_RADIANS) = - (7423809611562269 / 2 ^ 125)"
    unfolding DEGREES_TO_RADIANS_eq by (subst fl_eval_lo[where n = 73]) (simp_all add: rne_numeral_divide rne_numeral rne_minus)
  show "fl (0 + (- (7423809611562269 / 2 ^ 125))) = - (7423809611562269 / 2 ^ 125)"
    by (subst fl_eval_lo[where n = 73]) (simp_all add: rne_numeral_divide rne_numeral rne_minus)
  show "- (7423809611562269 / 2 ^ 125) = (if \<bar>- (7423809611562269 / 2 ^ 125)\<bar> > TWO_PI then js_remainder (- (7423809611562269 / 2 ^ 125)) TWO_PI else - (7423809611562269 / 2 ^ 125))"
    by (simp add: TWO_PI_eq js_remainder_def trunc_def)
  have "fl ((- (7423809611562269 / 2 ^ 125)) + TWO_PI) = 884279719003555 / 2 ^ 47"
    unfolding TWO_PI_eq by (subst fl_eval_hi[where n = 2]) (simp_all add: rne_numeral_divide rne_numeral rne_minus)
  then show "884279719003555 / 2 ^ 47 = (if (- (7423809611562269 / 2 ^ 125) :: real) \<ge> 0 then - (7423809611562269 / 2 ^ 125) else fl ((- (7423809611562269 / 2 ^ 125)) + TWO_PI))"
    by simp
  show "fl (RADIANS_TO_DEGREES * (884279719003555 / 2 ^ 47)) = 360"
    unfolding RADIANS_TO_DEGREES_eq by (subst fl_eval_hi[where n = 8]) (simp_all add: rne_numeral_divide rne_numeral rne_minus)
qed

text \<open>
  The remainder, the reduced angle and the range of the result. The bounds of the
  result follow from the monotonicity of rounding.
\<close>

lemma js_remainder_cases:
  assumes "0 < b"
  shows "\<exists>t::int. js_remainder a b = a - b * of_int t \<and> b * \<bar>of_int t\<bar> \<le> \<bar>a\<bar>
            \<and> - b < js_remainder a b \<and> js_remainder a b < b"
proof (cases "0 \<le> a")
  case True
  define t where "t = \<lfloor>a / b\<rfloor>"
  have q: "0 \<le> a / b" using True assms by simp
  have t0: "0 \<le> t" using q by (simp add: t_def)
  have "of_int t \<le> a / b" unfolding t_def by (rule of_int_floor_le)
  then have le: "b * of_int t \<le> a" using assms by (simp add: field_simps)
  have "a / b < of_int t + 1" unfolding t_def by (rule real_of_int_floor_add_one_gt)
  then have lt: "a < b * of_int t + b" using assms by (simp add: field_simps)
  have "js_remainder a b = a - b * of_int t" using q by (simp add: js_remainder_def trunc_def t_def)
  moreover have "b * \<bar>real_of_int t\<bar> \<le> \<bar>a\<bar>" using t0 le True by simp
  ultimately show ?thesis using le lt assms by (intro exI[of _ t]) (simp; linarith)
next
  case False
  define t where "t = \<lceil>a / b\<rceil>"
  have q: "a / b < 0" using False assms by (simp add: field_simps)
  have t0: "t \<le> 0" using q by (simp add: t_def ceiling_le_zero)
  have "a / b \<le> of_int t" unfolding t_def by (rule le_of_int_ceiling)
  then have le: "a \<le> b * of_int t" using assms by (simp add: field_simps)
  have "of_int t - 1 < a / b" using ceiling_correct[of "a / b"] by (simp add: t_def)
  then have lt: "b * of_int t - b < a" using assms by (simp add: field_simps)
  have "js_remainder a b = a - b * of_int t" using q by (simp add: js_remainder_def trunc_def t_def)
  moreover have "b * \<bar>real_of_int t\<bar> \<le> \<bar>a\<bar>" using t0 le False by simp
  ultimately show ?thesis using le lt assms by (intro exI[of _ t]) (simp; linarith)
qed

lemma TWO_PI_pos: "0 < TWO_PI"
  by (simp add: TWO_PI_eq)

lemma fl_TWO_PI: "fl TWO_PI = TWO_PI"
  unfolding TWO_PI_eq
  by (subst fl_eval_hi[where n = 2]) (simp_all add: rne_numeral_divide rne_numeral rne_minus)

lemma fl_full_turn: "fl (RADIANS_TO_DEGREES * TWO_PI) = 360"
  unfolding TWO_PI_eq RADIANS_TO_DEGREES_eq
  by (subst fl_eval_hi[where n = 8]) (simp_all add: rne_numeral_divide rne_numeral rne_minus)

lemma reduced_range:
  fixes n :: real
  defines "m \<equiv> (if \<bar>n\<bar> > TWO_PI then js_remainder n TWO_PI else n)"
  defines "x \<equiv> (if m \<ge> 0 then m else fl (m + TWO_PI))"
  shows "0 \<le> x \<and> x \<le> TWO_PI"
proof -
  have m: "- TWO_PI \<le> m \<and> m \<le> TWO_PI"
  proof (cases "\<bar>n\<bar> > TWO_PI")
    case True
    then show ?thesis using js_remainder_cases[OF TWO_PI_pos, of n] by (auto simp: m_def)
  next
    case False
    then show ?thesis by (simp add: m_def) linarith
  qed
  show ?thesis
  proof (cases "m \<ge> 0")
    case True
    then show ?thesis using m by (simp add: x_def)
  next
    case False
    have "fl 0 \<le> fl (m + TWO_PI)" using m by (intro fl_mono) simp
    moreover have "fl (m + TWO_PI) \<le> fl TWO_PI" using False by (intro fl_mono) simp
    ultimately show ?thesis using False by (simp add: x_def fl_0 fl_TWO_PI)
  qed
qed

lemma normalizedHeading_range: "0 \<le> normalizedHeading h d \<and> normalizedHeading h d \<le> 360"
proof -
  define n where "n = fl (fl (h * DEGREES_TO_RADIANS) + fl (d * DEGREES_TO_RADIANS))"
  define m where "m = (if \<bar>n\<bar> > TWO_PI then js_remainder n TWO_PI else n)"
  define x where "x = (if m \<ge> 0 then m else fl (m + TWO_PI))"
  have r: "normalizedHeading h d = fl (RADIANS_TO_DEGREES * x)"
    unfolding normalizedHeading_def Let_def n_def m_def x_def ..
  have x: "0 \<le> x \<and> x \<le> TWO_PI"
    unfolding x_def m_def by (rule reduced_range)
  have p: "0 < RADIANS_TO_DEGREES" by (simp add: RADIANS_TO_DEGREES_eq)
  have "fl 0 \<le> fl (RADIANS_TO_DEGREES * x)" using x p by (intro fl_mono) simp
  moreover have "fl (RADIANS_TO_DEGREES * x) \<le> fl (RADIANS_TO_DEGREES * TWO_PI)"
    using x p by (intro fl_mono) simp
  ultimately show ?thesis by (simp add: r fl_0 fl_full_turn)
qed

text \<open>
  The result against the sum of heading and delta. Each rounding adds a relative error
  of at most \<open>2 ^ - 53\<close>; the product of the two conversion factors is not exactly 1, and
  the full turn in radians does not convert to exactly 360 before the last rounding.
\<close>

lemma fl_error_weak: "\<bar>fl x - x\<bar> \<le> \<bar>x\<bar> / 2 ^ 53 + 1 / 2 ^ 100"
proof -
  have "(1::real) / 2 ^ 1075 \<le> 1 / 2 ^ 100"
    by (intro divide_left_mono power_increasing) simp_all
  then show ?thesis using fl_error[of x] by linarith
qed

lemma abs_sum8:
  fixes a b c d e f g h :: real
  shows "\<bar>a + b + c + d + e + f + g + h\<bar> \<le> \<bar>a\<bar> + \<bar>b\<bar> + \<bar>c\<bar> + \<bar>d\<bar> + \<bar>e\<bar> + \<bar>f\<bar> + \<bar>g\<bar> + \<bar>h\<bar>"
  by (intro order_trans[OF abs_triangle_ineq] add_mono order_refl)

lemma error_budget:
  fixes L K F E A B C N T H G cH cG cT :: real
  assumes "cH \<le> 1 / 2 ^ 55 * H"
    "cG \<le> 1 / 2 ^ 55 * G"
    "cT \<le> 1 / 2 ^ 49 * (T + 1)"
    "L \<le> K + 1007958012753983 / 2 ^ 44 * F + 1007958012753983 / 2 ^ 44 * E +
       1007958012753983 / 2 ^ 44 * A + 1007958012753983 / 2 ^ 44 * B + cH + cG + cT"
    "A \<le> 5030569068109113 / 2 ^ 58 * H / 2 ^ 53 + 1 / 2 ^ 100"
    "B \<le> 5030569068109113 / 2 ^ 58 * G / 2 ^ 53 + 1 / 2 ^ 100"
    "C \<le> 5030569068109113 / 2 ^ 58 * H + 5030569068109113 / 2 ^ 58 * G + A + B"
    "E \<le> C / 2 ^ 53 + 1 / 2 ^ 100"
    "N \<le> C + E"
    "884279719003555 / 2 ^ 47 * T \<le> N"
    "F \<le> 884279719003555 / 2 ^ 47 / 2 ^ 53 + 1 / 2 ^ 100"
    "K \<le> 1007958012753983 / 2 ^ 44 * (884279719003555 / 2 ^ 47) / 2 ^ 53 + 1 / 2 ^ 100"
    "0 \<le> H" "0 \<le> G" "0 \<le> T"
  shows "L \<le> (H + G + 360) / 2 ^ 51"
  using assms by simp


lemma normalizedHeading_near:
  "\<exists>k::int. \<bar>normalizedHeading h d - (h + d - 360 * of_int k)\<bar> \<le> (\<bar>h\<bar> + \<bar>d\<bar> + 360) / 2 ^ 51"
proof -
  define D where "D = DEGREES_TO_RADIANS"
  define R where "R = RADIANS_TO_DEGREES"
  define P where "P = TWO_PI"
  define a where "a = fl (h * D)"
  define b where "b = fl (d * D)"
  define n where "n = fl (a + b)"
  define m where "m = (if \<bar>n\<bar> > P then js_remainder n P else n)"
  define x where "x = (if m \<ge> 0 then m else fl (m + P))"
  define r where "r = fl (R * x)"
  have res: "normalizedHeading h d = r"
    unfolding normalizedHeading_def Let_def r_def x_def m_def n_def a_def b_def D_def R_def P_def ..
  have Dv: "D = 5030569068109113 / 2 ^ 58" by (simp add: D_def DEGREES_TO_RADIANS_eq)
  have Rv: "R = 1007958012753983 / 2 ^ 44" by (simp add: R_def RADIANS_TO_DEGREES_eq)
  have Pv: "P = 884279719003555 / 2 ^ 47" by (simp add: P_def TWO_PI_eq)
  have Ppos: "0 < P" by (simp add: Pv)
  have Rpos: "0 < R" by (simp add: Rv)
  have Dpos: "0 < D" by (simp add: Dv)
  obtain t :: int where t: "m = n - P * of_int t" and tn: "P * \<bar>of_int t\<bar> \<le> \<bar>n\<bar>"
  proof (cases "\<bar>n\<bar> > P")
    case True
    then have "m = js_remainder n P" by (simp add: m_def)
    then show ?thesis using js_remainder_cases[OF Ppos, of n] that by auto
  next
    case False
    then have "m = n - P * of_int (0::int)" by (simp add: m_def)
    then show ?thesis using that[of 0] by simp
  qed
  have xr: "0 \<le> x \<and> x \<le> P"
    unfolding x_def m_def P_def by (rule reduced_range)
  have mr: "- P \<le> m \<and> m \<le> P"
  proof (cases "\<bar>n\<bar> > P")
    case True
    then show ?thesis using js_remainder_cases[OF Ppos, of n] by (auto simp: m_def)
  next
    case False
    then show ?thesis by (simp add: m_def) linarith
  qed
  define j :: int where "j = (if m \<ge> 0 then 0 else 1)"
  define e3 where "e3 = x - (m + P * of_int j)"
  have j: "\<bar>real_of_int j\<bar> \<le> 1" by (simp add: j_def)
  have E3: "\<bar>e3\<bar> \<le> P / 2 ^ 53 + 1 / 2 ^ 100"
  proof (cases "m \<ge> 0")
    case True
    then show ?thesis using Ppos by (simp add: e3_def x_def j_def)
  next
    case False
    then have "e3 = fl (m + P) - (m + P)" by (simp add: e3_def x_def j_def)
    moreover have "\<bar>m + P\<bar> \<le> P" using mr False by simp
    then have "\<bar>m + P\<bar> / 2 ^ 53 \<le> P / 2 ^ 53" by (simp add: divide_right_mono)
    ultimately show ?thesis using fl_error_weak[of "m + P"] by linarith
  qed
  define ea where "ea = a - h * D"
  define eb where "eb = b - d * D"
  define en where "en = n - (a + b)"
  define er where "er = r - R * x"
  have Ea: "\<bar>ea\<bar> \<le> D * \<bar>h\<bar> / 2 ^ 53 + 1 / 2 ^ 100"
    using fl_error_weak[of "h * D"] Dpos by (simp add: ea_def a_def abs_mult mult.commute)
  have Eb: "\<bar>eb\<bar> \<le> D * \<bar>d\<bar> / 2 ^ 53 + 1 / 2 ^ 100"
    using fl_error_weak[of "d * D"] Dpos by (simp add: eb_def b_def abs_mult mult.commute)
  have "a + b = h * D + d * D + ea + eb" by (simp add: ea_def eb_def)
  then have "\<bar>a + b\<bar> \<le> \<bar>h * D\<bar> + \<bar>d * D\<bar> + \<bar>ea\<bar> + \<bar>eb\<bar>" by linarith
  then have AB: "\<bar>a + b\<bar> \<le> D * \<bar>h\<bar> + D * \<bar>d\<bar> + \<bar>ea\<bar> + \<bar>eb\<bar>"
    using Dpos by (simp add: abs_mult mult.commute)
  have En: "\<bar>en\<bar> \<le> \<bar>a + b\<bar> / 2 ^ 53 + 1 / 2 ^ 100"
    using fl_error_weak[of "a + b"] by (simp add: en_def n_def)
  have N: "\<bar>n\<bar> \<le> \<bar>a + b\<bar> + \<bar>en\<bar>" unfolding en_def by linarith
  have "\<bar>R * x\<bar> \<le> R * P" using xr Rpos by (simp add: abs_mult)
  then have "\<bar>R * x\<bar> / 2 ^ 53 \<le> R * P / 2 ^ 53" by (simp add: divide_right_mono)
  then have Er: "\<bar>er\<bar> \<le> R * P / 2 ^ 53 + 1 / 2 ^ 100"
    using fl_error_weak[of "R * x"] by (simp add: er_def r_def)
  have ident: "r - (h + d - 360 * of_int (t - j))
      = er + R * e3 + R * en + R * ea + R * eb + (R * D - 1) * h + (R * D - 1) * d
        + (360 - R * P) * of_int (t - j)"
    unfolding er_def e3_def en_def ea_def eb_def t by (simp add: algebra_simps)
  have tri: "\<bar>r - (h + d - 360 * of_int (t - j))\<bar>
      \<le> \<bar>er\<bar> + R * \<bar>e3\<bar> + R * \<bar>en\<bar> + R * \<bar>ea\<bar> + R * \<bar>eb\<bar> + \<bar>R * D - 1\<bar> * \<bar>h\<bar> + \<bar>R * D - 1\<bar> * \<bar>d\<bar>
        + \<bar>360 - R * P\<bar> * (\<bar>of_int t\<bar> + 1)"
  proof -
    have "\<bar>real_of_int (t - j)\<bar> \<le> \<bar>of_int t\<bar> + 1" using j by simp
    then have "\<bar>360 - R * P\<bar> * \<bar>real_of_int (t - j)\<bar> \<le> \<bar>360 - R * P\<bar> * (\<bar>of_int t\<bar> + 1)"
      by (intro mult_left_mono) simp_all
    then show ?thesis
      unfolding ident using abs_sum8[of er "R * e3" "R * en" "R * ea" "R * eb" "(R * D - 1) * h"
          "(R * D - 1) * d" "(360 - R * P) * of_int (t - j)"] Rpos
      by (simp add: abs_mult)
  qed
  have c1: "\<bar>R * D - 1\<bar> \<le> 1 / 2 ^ 55" by (simp add: Rv Dv)
  have c2: "\<bar>360 - R * P\<bar> \<le> 1 / 2 ^ 49" by (simp add: Rv Pv)
  define H where "H = \<bar>h\<bar>"
  define G where "G = \<bar>d\<bar>"
  define T where "T = \<bar>real_of_int t\<bar>"
  define A where "A = \<bar>ea\<bar>"
  define B where "B = \<bar>eb\<bar>"
  define C where "C = \<bar>a + b\<bar>"
  define E where "E = \<bar>en\<bar>"
  define N where "N = \<bar>n\<bar>"
  define F where "F = \<bar>e3\<bar>"
  define K where "K = \<bar>er\<bar>"
  define c where "c = \<bar>R * D - 1\<bar>"
  define c' where "c' = \<bar>360 - R * P\<bar>"
  have nn: "0 \<le> H" "0 \<le> G" "0 \<le> T" by (simp_all add: H_def G_def T_def)
  have cH: "c * H \<le> 1 / 2 ^ 55 * H" using c1 nn unfolding c_def by (intro mult_right_mono)
  have cG: "c * G \<le> 1 / 2 ^ 55 * G" using c1 nn unfolding c_def by (intro mult_right_mono)
  have cT: "c' * (T + 1) \<le> 1 / 2 ^ 49 * (T + 1)"
    using c2 nn unfolding c'_def by (intro mult_right_mono) simp_all
  have "\<bar>r - (h + d - 360 * of_int (t - j))\<bar> \<le> (H + G + 360) / 2 ^ 51"
    by (rule error_budget[OF cH cG cT
          tri[folded H_def G_def T_def A_def B_def E_def F_def K_def c_def c'_def, unfolded Rv]
          Ea[folded H_def A_def, unfolded Dv] Eb[folded G_def B_def, unfolded Dv]
          AB[folded H_def G_def A_def B_def C_def, unfolded Dv] En[folded C_def E_def]
          N[folded C_def E_def N_def] tn[folded T_def N_def, unfolded Pv] E3[folded F_def, unfolded Pv]
          Er[folded K_def, unfolded Rv Pv] nn])
  then have "\<bar>r - (h + d - 360 * of_int (t - j))\<bar> \<le> (\<bar>h\<bar> + \<bar>d\<bar> + 360) / 2 ^ 51"
    by (simp add: H_def G_def)
  then show ?thesis unfolding res ..
qed

text \<open>
  The four branches of a call, by the rounded sum \<open>n\<close> in radians: above a full
  turn, between zero and a full turn, between minus a full turn and zero, and below
  minus a full turn.
\<close>

lemma floor_quotient_le:
  fixes a b :: real
  assumes "0 < b"
  shows "b * of_int \<lfloor>a / b\<rfloor> \<le> a"
proof -
  have "of_int \<lfloor>a / b\<rfloor> \<le> a / b" by (rule of_int_floor_le)
  then have "b * of_int \<lfloor>a / b\<rfloor> \<le> b * (a / b)" using assms by (intro mult_left_mono) simp_all
  then show ?thesis using assms by simp
qed

lemma normalizedHeading_branches:
  "normalizedHeading h d =
     (let n = fl (fl (h * DEGREES_TO_RADIANS) + fl (d * DEGREES_TO_RADIANS))
      in if TWO_PI < n then fl (RADIANS_TO_DEGREES * (n - TWO_PI * of_int \<lfloor>n / TWO_PI\<rfloor>))
         else if 0 \<le> n then fl (RADIANS_TO_DEGREES * n)
         else if - TWO_PI \<le> n then fl (RADIANS_TO_DEGREES * fl (n + TWO_PI))
         else (let m = n + TWO_PI * of_int \<lfloor>- n / TWO_PI\<rfloor>
               in fl (RADIANS_TO_DEGREES * (if m = 0 then 0 else fl (m + TWO_PI)))))"
proof -
  define n where "n = fl (fl (h * DEGREES_TO_RADIANS) + fl (d * DEGREES_TO_RADIANS))"
  define m where "m = (if \<bar>n\<bar> > TWO_PI then js_remainder n TWO_PI else n)"
  have r: "normalizedHeading h d
             = fl (RADIANS_TO_DEGREES * (if m \<ge> 0 then m else fl (m + TWO_PI)))"
    unfolding normalizedHeading_def Let_def n_def m_def ..
  have P: "0 < TWO_PI" by (rule TWO_PI_pos)
  consider (a) "TWO_PI < n" | (b) "0 \<le> n" "n \<le> TWO_PI" | (c) "n < 0" "- TWO_PI \<le> n"
    | (e) "n < - TWO_PI" by linarith
  then have "normalizedHeading h d =
      (if TWO_PI < n then fl (RADIANS_TO_DEGREES * (n - TWO_PI * of_int \<lfloor>n / TWO_PI\<rfloor>))
         else if 0 \<le> n then fl (RADIANS_TO_DEGREES * n)
         else if - TWO_PI \<le> n then fl (RADIANS_TO_DEGREES * fl (n + TWO_PI))
         else (let m = n + TWO_PI * of_int \<lfloor>- n / TWO_PI\<rfloor>
               in fl (RADIANS_TO_DEGREES * (if m = 0 then 0 else fl (m + TWO_PI)))))"
  proof cases
    case a
    have q: "0 \<le> n / TWO_PI" using a P by simp
    have "TWO_PI * of_int \<lfloor>n / TWO_PI\<rfloor> \<le> n" using P by (rule floor_quotient_le)
    moreover have "m = n - TWO_PI * of_int \<lfloor>n / TWO_PI\<rfloor>"
      using a P q by (simp add: m_def js_remainder_def trunc_def)
    ultimately show ?thesis using a by (simp add: r)
  next
    case b
    then have "m = n" by (simp add: m_def)
    then show ?thesis using b by (simp add: r)
  next
    case c
    then have "m = n" by (simp add: m_def)
    then show ?thesis using c by (simp add: r)
  next
    case e
    have q: "n / TWO_PI < 0" using e P by (simp add: field_simps)
    have "TWO_PI * of_int \<lfloor>- n / TWO_PI\<rfloor> \<le> - n" using P by (rule floor_quotient_le)
    then have le: "n + TWO_PI * of_int \<lfloor>- n / TWO_PI\<rfloor> \<le> 0" by linarith
    have "\<lceil>n / TWO_PI\<rceil> = - \<lfloor>- n / TWO_PI\<rfloor>" by (simp add: ceiling_def)
    then have "m = n + TWO_PI * of_int \<lfloor>- n / TWO_PI\<rfloor>"
      using e P q by (simp add: m_def js_remainder_def trunc_def)
    then show ?thesis using e P le by (simp add: r Let_def fl_0)
  qed
  then show ?thesis unfolding Let_def n_def .
qed

text \<open>
  C2, amended. normalizedHeading adds heading and delta in radians, reduces the sum by
  one remainder modulo a full turn only when its absolute value exceeds a full turn,
  adds a full turn when the result is negative and returns degrees, every operation
  being rounded to a double: a sum above a full turn loses the whole turns in it, a
  sum from zero to a full turn is converted as it is, a negative sum down to minus a
  full turn gains a full turn, and a sum below that loses its whole turns and then
  gains one unless nothing is left. For all finite arguments the
  result lies in the closed interval from 0 to 360, and 360 is reached:
  normalizedHeading(360, 0) is 360. The result agrees with the sum of heading and
  delta modulo 360 up to rounding: it is within (|h| + |d| + 360) / 2^51 of
  h + d - 360 k for an integer k. In particular normalizedHeading(h, 0) is h modulo
  360 up to rounding; normalizedHeading(350, 20) is the double 9.99999999999999,
  which is 3 / 2^48 below 10; and normalizedHeading(0, -10) is 350.
\<close>

theorem normalizedHeading_wraps:
  "normalizedHeading h d =
     (let n = fl (fl (h * DEGREES_TO_RADIANS) + fl (d * DEGREES_TO_RADIANS))
      in if TWO_PI < n then fl (RADIANS_TO_DEGREES * (n - TWO_PI * of_int \<lfloor>n / TWO_PI\<rfloor>))
         else if 0 \<le> n then fl (RADIANS_TO_DEGREES * n)
         else if - TWO_PI \<le> n then fl (RADIANS_TO_DEGREES * fl (n + TWO_PI))
         else (let m = n + TWO_PI * of_int \<lfloor>- n / TWO_PI\<rfloor>
               in fl (RADIANS_TO_DEGREES * (if m = 0 then 0 else fl (m + TWO_PI)))))
   \<and> 0 \<le> normalizedHeading h d \<and> normalizedHeading h d \<le> 360
   \<and> normalizedHeading 360 0 = 360
   \<and> (\<exists>k::int. \<bar>normalizedHeading h d - (h + d - 360 * of_int k)\<bar>
                   \<le> (\<bar>h\<bar> + \<bar>d\<bar> + 360) / 2 ^ 51)
   \<and> (\<exists>k::int. \<bar>normalizedHeading h 0 - (h - 360 * of_int k)\<bar> \<le> (\<bar>h\<bar> + 360) / 2 ^ 51)
   \<and> normalizedHeading 350 20 = 2814749767106557 / 2 ^ 48
   \<and> 10 - normalizedHeading 350 20 = 3 / 2 ^ 48
   \<and> normalizedHeading 0 (- 10) = 350"
proof -
  have z: "\<exists>k::int. \<bar>normalizedHeading h 0 - (h - 360 * of_int k)\<bar> \<le> (\<bar>h\<bar> + 360) / 2 ^ 51"
    using normalizedHeading_near[of h 0] by simp
  have v: "10 - normalizedHeading 350 20 = 3 / 2 ^ 48"
    by (simp add: normalizedHeading_350_20)
  show ?thesis
    using normalizedHeading_branches[of h d] normalizedHeading_range[of h d]
      normalizedHeading_360_0 normalizedHeading_near[of h d] z
      normalizedHeading_350_20 v normalizedHeading_0_m10
    by blast
qed

text \<open>
  The claim as first stated fails twice: a sum of a full turn is not reduced, so the
  result 360 lies outside the half-open range; and normalizedHeading(350, 20) is not
  10 but the double below it that the rounded operations produce.
\<close>

theorem normalizedHeading_reaches_360:
  "\<not> normalizedHeading 360 0 < 360 \<and> normalizedHeading 350 20 \<noteq> 10"
  by (simp add: normalizedHeading_360_0 normalizedHeading_350_20)

section \<open>Center and average distance\<close>

lemma addRing_eq:
  "addRing g ls ((x, y, z), n) =
     ((x + sum_list (map (\<lambda>l. fst (pointOf g l)) ls),
       y + sum_list (map (\<lambda>l. fst (snd (pointOf g l))) ls),
       z + sum_list (map (\<lambda>l. snd (snd (pointOf g l))) ls)),
      n + length ls)"
proof (induction ls arbitrary: x y z n)
  case Nil
  then show ?case by simp
next
  case (Cons l ls)
  obtain a b c where p: "computePointFromPosition g (latitude l) (longitude l) 0 = (a, b, c)"
    by (cases "computePointFromPosition g (latitude l) (longitude l) 0") auto
  show ?case by (simp add: p Cons.IH pointOf_def)
qed

lemma addRings_eq:
  "addRings g (map Ring rs) ((x, y, z), n) =
     ((x + sum_list (map (\<lambda>l. fst (pointOf g l)) (concat rs)),
       y + sum_list (map (\<lambda>l. fst (snd (pointOf g l))) (concat rs)),
       z + sum_list (map (\<lambda>l. snd (snd (pointOf g l))) (concat rs))),
      n + length (concat rs))"
proof (induction rs arbitrary: x y z n)
  case Nil
  then show ?case by simp
next
  case (Cons r rs)
  show ?case by (simp add: addRing_eq Cons.IH add.assoc)
qed

lemma addFlat_eq:
  "addFlat g (map Loc ls) ((x, y, z), n) =
     Inr ((x + sum_list (map (\<lambda>l. fst (pointOf g l)) ls),
       y + sum_list (map (\<lambda>l. fst (snd (pointOf g l))) ls),
       z + sum_list (map (\<lambda>l. snd (snd (pointOf g l))) ls)),
      n + length ls)"
proof (induction ls arbitrary: x y z n)
  case Nil
  then show ?case by simp
next
  case (Cons l ls)
  obtain a b c where p: "computePointFromPosition g (latitude l) (longitude l) 0 = (a, b, c)"
    by (cases "computePointFromPosition g (latitude l) (longitude l) 0") auto
  show ?case by (simp add: p Cons.IH pointOf_def)
qed

lemma getCenter_flat:
  assumes "2 \<le> length ls"
  shows "getCenter g (map Loc ls) = Inr (centroid g ls)"
proof -
  have nr: "\<not> firstIsRing (map Loc ls)" by (cases ls) auto
  from assms have n0: "length ls \<noteq> 0" by auto
  show ?thesis
    using assms n0 by (simp add: getCenter_def nr addFlat_eq averagePosition_def centroid_def)
qed

lemma getCenter_rings:
  assumes "2 < length r"
  shows "getCenter g (map Ring (r # rs)) = Inr (centroid g (concat (r # rs)))"
proof -
  have fr: "firstIsRing (map Ring (r # rs))" using assms by simp
  from assms have n0: "length (concat (r # rs)) \<noteq> 0" by auto
  show ?thesis
    unfolding getCenter_def centroid_def using n0
    by (simp only: fr if_True addRings_eq averagePosition_def) simp
qed

text \<open>
  C5, amended. For every flat boundary of at least two locations getCenter returns the
  mean of the cartesian points of all its vertices, converted back to a position; for
  every sequence of rings whose first ring has more than two vertices it returns the
  mean over the vertices of all rings, so the inner rings count as well. Over the four
  corners of a square this is a quarter of the sum of the corner points.
\<close>

theorem getCenter_is_centroid:
  "(2 \<le> length ls \<longrightarrow> getCenter g (map Loc ls) = Inr (centroid g ls))
   \<and> (2 < length r \<longrightarrow>
        getCenter g (map Ring (r # rs)) = Inr (centroid g (concat (r # rs))))
   \<and> getCenter g [Loc a, Loc b, Loc c, Loc d] = Inr (centroid g [a, b, c, d])"
  using getCenter_flat[of ls g] getCenter_rings[of r g rs] getCenter_flat[of "[a, b, c, d]" g]
  by simp

theorem getCenter_is_centroid_witness:
  "2 \<le> length [Location 0 0, Location 0 2, Location 2 2, Location 2 0]
   \<and> getCenter planar (map Loc [Location 0 0, Location 0 2, Location 2 2, Location 2 0])
       = Inr (Position 1 1 0)
   \<and> 2 < length [Location 0 0, Location 0 4, Location 4 4]
   \<and> getCenter planar (map Ring ([Location 0 0, Location 0 4, Location 4 4] # [[Location 8 8]]))
       = Inr (Position 3 4 0)"
  using getCenter_is_centroid[of "[Location 0 0, Location 0 2, Location 2 2, Location 2 0]"
      planar "[Location 0 0, Location 0 4, Location 4 4]" "[[Location 8 8]]"]
  by (simp add: centroid_def pointOf_def planar_def)

text \<open>
  The claim as first stated fails on a boundary that is not empty: a single location
  is not accumulated, and the zero vector is divided by a count of zero.
\<close>

theorem getCenter_single_location_undefined:
  "getCenter planar [Loc (Location 10 20)] = Inl DivisionByZero"
  by (simp add: getCenter_def averagePosition_def)

text \<open>
  C10. getCenter divides the zero vector by a count of zero for the empty boundary and
  also for every flat boundary of exactly one location: the flat loop runs only for
  two or more elements, so the single location is not added, the sum is still the zero
  vector and the count still zero when the average is taken.
\<close>

theorem getCenter_zero_count:
  "getCenter g [] = Inl DivisionByZero
   \<and> getCenter g [Loc l] = Inl DivisionByZero
   \<and> getCenter g [Loc l] = averagePosition g ((0, 0, 0), 0)
   \<and> Vec3_divide (0, 0, 0) (real (0::nat)) = None"
  by (simp add: getCenter_def averagePosition_def)

lemma totalDistance_eq:
  "totalDistance g cp n ls t = t + sum_list (map (\<lambda>l. Vec3_distanceTo (computePointFromLocation g (latitude l) (longitude l)) cp) ls) / real n"
  by (induction ls arbitrary: t) (simp_all add: Let_def add_divide_distrib)

lemma getAverageDistance_mean:
  "getAverageDistance g c ls = (if ls = [] then 0 else
     (sum_list (map (\<lambda>l. Vec3_distanceTo (computePointFromLocation g (latitude l) (longitude l))
         (computePointFromLocation g (latitude c) (longitude c))) ls) / real (length ls)) / equatorialRadius g)"
  by (simp add: getAverageDistance_def Let_def totalDistance_eq)


text \<open>
  C6. getAverageDistance returns 0 for an empty list of locations. For a list that is
  not empty it returns the mean of the cartesian distances between the globe point of
  each location and the globe point of the center, divided by the equatorial radius
  of the globe (taken to be nonzero).
\<close>

theorem getAverageDistance_is_mean:
  "getAverageDistance g c [] = 0
   \<and> (ls \<noteq> [] \<and> equatorialRadius g \<noteq> 0 \<longrightarrow>
        getAverageDistance g c ls =
          (sum_list (map (\<lambda>l. Vec3_distanceTo
                (computePointFromLocation g (latitude l) (longitude l))
                (computePointFromLocation g (latitude c) (longitude c))) ls)
             / real (length ls)) / equatorialRadius g)"
  by (simp add: getAverageDistance_mean)

theorem getAverageDistance_is_mean_witness:
  "[Location 3 4, Location 0 0, Location 0 5] \<noteq> [] \<and> equatorialRadius planar \<noteq> 0
   \<and> getAverageDistance planar (Location 0 0) [Location 3 4, Location 0 0, Location 0 5]
       = 10 / 3"
proof -
  have s: "sqrt 25 = 5" using real_sqrt_abs[of 5] by simp
  show ?thesis
    using getAverageDistance_is_mean[of planar "Location 0 0"
        "[Location 3 4, Location 0 0, Location 0 5]"]
    by (simp add: planar_def Vec3_distanceTo_def Vec3_magnitude_def s)
qed

section \<open>Nearest point on a segment\<close>

text \<open>
  C1 at two inputs. For p1 = (0, 0, 0), p2 = (2, 0, 0) and the query point (1, 1, 0)
  the projection parameter is 1, within the segment, and the result is whatever the
  call of Vec3.fromLine gives, which the source marks as broken. For p1 = (1, 0, 0),
  p2 = (3, 0, 0) and the query point (9, 0, 0) the parameter exceeds the length of
  the segment; the vector handed back is p2, which by then holds p2 minus p1, that is
  (2, 0, 0) and not the end point (3, 0, 0).
\<close>

theorem nearestPointOnSegment_at_inputs:
  "nearestPointOnSegment fromLine (0, 0, 0) (2, 0, 0) (1, 1, 0)
     = Inr (fromLine (0, 0, 0) 1 (1, 0, 0))
   \<and> nearestPointOnSegment fromLine (1, 0, 0) (3, 0, 0) (9, 0, 0) = Inr (2, 0, 0)"
  by (simp add: nearestPointOnSegment_def Vec3_normalize_def Vec3_magnitude_def Let_def)

section \<open>Insertion of a vertex\<close>

lemma readIdentifier_SurfacePolygon:
  "readIdentifier ''SurfacePolygon'' = Inl (ReferenceError ''SurfacePolygon'')"
  by (simp add: readIdentifier_def moduleScope_def globalScope_def)

lemma scanEdge_throws:
  "scanEdge fromLine this g pointPicked alt locations i st
     = Inl (ReferenceError ''SurfacePolygon'')"
  by (simp add: scanEdge_def readIdentifier_SurfacePolygon)

lemma scanEdges_throws:
  "scanEdges fromLine this g pointPicked alt locations (i # is) st
     = Inl (ReferenceError ''SurfacePolygon'')"
  by (simp add: scanEdge_throws)

lemma addNewControlPoint_nonempty:
  "addNewControlPoint fromLine this g terrainPosition alt (l # ls)
     = (l # ls, Inl (ReferenceError ''SurfacePolygon''))"
proof -
  have "[1 ..< Suc (length (l # ls))] = 1 # [Suc 1 ..< Suc (length (l # ls))]"
    by (rule upt_conv_Cons) simp
  then show ?thesis
    unfolding addNewControlPoint_def Let_def by (simp only: scanEdges_throws sum.case)
qed

text \<open>
  C3. Whatever the fragment, the globe, the picked position and the altitude,
  addNewControlPoint called with a boundary of at least one location ends in a
  ReferenceError in the first round of its loop, since the identifier SurfacePolygon
  is bound nowhere, and leaves the boundary as it was; no vertex is inserted. Called
  with the empty boundary it returns and inserts nothing either. So for a square
  boundary, a fragment that edits a polygon, and a picked point at the midpoint of the
  first edge, where the claim expects a fifth vertex at index 1, the call throws and the
  boundary keeps its four vertices.
\<close>

theorem addNewControlPoint_throws:
  "addNewControlPoint fromLine this g terrainPosition alt (l # ls)
     = (l # ls, Inl (ReferenceError ''SurfacePolygon''))
   \<and> addNewControlPoint fromLine this g terrainPosition alt [] = ([], Inr ())
   \<and> addNewControlPoint fromLine_spec polygonFragment planar (Location 0 1) 0
        [Location 0 0, Location 0 2, Location 2 2, Location 2 0]
     = ([Location 0 0, Location 0 2, Location 2 2, Location 2 0],
        Inl (ReferenceError ''SurfacePolygon''))"
  by (simp add: addNewControlPoint_nonempty) (simp add: addNewControlPoint_def)

section \<open>The abstract contract\<close>

text \<open>
  C8. Invoked on the base fragment, each of canHandle, createShadowShape, getShapeCenter,
  initializeControlElements, updateControlElements and reshape logs one diagnostic of
  severe level and throws UnsupportedOperationError carrying it, whatever its
  arguments are; nothing is returned and the only state touched is the log.
\<close>

theorem abstract_methods_throw:
  "canHandle lg shape =
     (lg @ [\<lparr>severity = LEVEL_SEVERE, className = ''BaseSurfaceEditorFragment'',
             functionName = ''canHandle'', message = ''abstractInvocation''\<rparr>],
      Inl (UnsupportedOperationError
            \<lparr>severity = LEVEL_SEVERE, className = ''BaseSurfaceEditorFragment'',
             functionName = ''canHandle'', message = ''abstractInvocation''\<rparr>))
   \<and> createShadowShape lg shape =
     (lg @ [\<lparr>severity = LEVEL_SEVERE, className = ''BaseSurfaceEditorFragment'',
             functionName = ''createShadowShape'', message = ''abstractInvocation''\<rparr>],
      Inl (UnsupportedOperationError
            \<lparr>severity = LEVEL_SEVERE, className = ''BaseSurfaceEditorFragment'',
             functionName = ''createShadowShape'', message = ''abstractInvocation''\<rparr>))
   \<and> getShapeCenter lg shape globe =
     (lg @ [\<lparr>severity = LEVEL_SEVERE, className = ''BaseSurfaceEditorFragment'',
             functionName = ''getShapeCenter'', message = ''abstractInvocation''\<rparr>],
      Inl (UnsupportedOperationError
            \<lparr>severity = LEVEL_SEVERE, className = ''BaseSurfaceEditorFragment'',
             functionName = ''getShapeCenter'', message = ''abstractInvocation''\<rparr>))
   \<and> initializeControlElements lg shape controlPoints accessories resizeAttrs rotateAttrs moveAttrs =
     (lg @ [\<lparr>severity = LEVEL_SEVERE, className = ''BaseSurfaceEditorFragment'',
             functionName = ''initializeControlElements'', message = ''abstractInvocation''\<rparr>],
      Inl (UnsupportedOperationError
            \<lparr>severity = LEVEL_SEVERE, className = ''BaseSurfaceEditorFragment'',
             functionName = ''initializeControlElements'', message = ''abstractInvocation''\<rparr>))
   \<and> updateControlElements lg shape globe controlPoints accessories =
     (lg @ [\<lparr>severity = LEVEL_SEVERE, className = ''BaseSurfaceEditorFragment'',
             functionName = ''updateControlElements'', message = ''abstractInvocation''\<rparr>],
      Inl (UnsupportedOperationError
            \<lparr>severity = LEVEL_SEVERE, className = ''BaseSurfaceEditorFragment'',
             functionName = ''updateControlElements'', message = ''abstractInvocation''\<rparr>))
   \<and> reshape lg shape globe controlPoint currentPosition previousPosition secondaryBehavior =
     (lg @ [\<lparr>severity = LEVEL_SEVERE, className = ''BaseSurfaceEditorFragment'',
             functionName = ''reshape'', message = ''abstractInvocation''\<rparr>],
      Inl (UnsupportedOperationError
            \<lparr>severity = LEVEL_SEVERE, className = ''BaseSurfaceEditorFragment'',
             functionName = ''reshape'', message = ''abstractInvocation''\<rparr>))"
  by (simp add: canHandle_def createShadowShape_def getShapeCenter_def
      initializeControlElements_def updateControlElements_def reshape_def logMessage_def Let_def)

section \<open>Control points\<close>

lemma createControlPoint_eq:
  "createControlPoint cps attrs purpose index =
     cps @ [\<lparr>position = Location 0 0, eyeDistanceScaling = False, attributes = attrs,
             altitudeMode = CLAMP_TO_GROUND,
             userProperties = (case index of
                 None \<Rightarrow> [''purpose'' \<mapsto> Text purpose]
               | Some i \<Rightarrow> [''purpose'' \<mapsto> Text purpose, ''index'' \<mapsto> Index i])\<rparr>]"
  by (simp add: createControlPoint_def new_Placemark_def Let_def split: option.split)

text \<open>
  C9, amended. createControlPoint appends exactly one control point to the array and
  leaves the earlier ones as they were. The new control point lies at location (0, 0),
  is clamped to the ground and carries the purpose the caller supplied, unchecked: it
  is one of the six constants exactly when the supplied purpose is. It carries an
  index exactly when the index argument is not undefined, whatever the purpose.
\<close>

theorem createControlPoint_appends_one:
  "length (createControlPoint cps attrs purpose index) = length cps + 1
   \<and> butlast (createControlPoint cps attrs purpose index) = cps
   \<and> position (last (createControlPoint cps attrs purpose index)) = Location 0 0
   \<and> altitudeMode (last (createControlPoint cps attrs purpose index)) = CLAMP_TO_GROUND
   \<and> userProperties (last (createControlPoint cps attrs purpose index)) ''purpose''
       = Some (Text purpose)
   \<and> ((\<exists>q \<in> ShapeEditorConstants.
          userProperties (last (createControlPoint cps attrs purpose index)) ''purpose''
            = Some (Text q))
        = (purpose \<in> ShapeEditorConstants))
   \<and> userProperties (last (createControlPoint cps attrs purpose index)) ''index''
       = map_option Index index
   \<and> ((''index'' \<in> dom (userProperties (last (createControlPoint cps attrs purpose index))))
        = (index \<noteq> None))"
  by (cases index) (auto simp add: createControlPoint_eq)

text \<open>
  The claim as first stated fails: a purpose outside the six constants is stored as
  it is, and a rotation control point given an index keeps the index.
\<close>

theorem createControlPoint_purpose_unchecked:
  "\<not> (\<exists>q \<in> ShapeEditorConstants.
        userProperties (last (createControlPoint [] () ''extent'' None)) ''purpose''
          = Some (Text q))
   \<and> userProperties (last (createControlPoint [] () ROTATION (Some 3))) ''index''
       = Some (Index 3)"
  by (simp add: createControlPoint_eq ShapeEditorConstants_def LOCATION_def ROTATION_def
      WIDTH_def HEIGHT_def RADIUS_def DRAG_def)

section \<open>Deep copies\<close>

lemma copyRing_eq:
  "ring < length (rings s) \<Longrightarrow> \<forall>p \<in> set ps. p < length (locObjs s) \<Longrightarrow>
   copyRing ring ps s =
     s\<lparr>locObjs := locObjs s @ map (\<lambda>p. asLocation (locObjs s ! p)) ps,
       rings := (rings s)[ring := rings s ! ring @ [length (locObjs s) ..< length (locObjs s) + length ps]]\<rparr>"
proof (induction ps arbitrary: s)
  case Nil
  then show ?case by simp
next
  case (Cons p ps)
  define s' where "s' = push_ring (s\<lparr>locObjs := locObjs s @ [asLocation (locObjs s ! p)]\<rparr>) ring (length (locObjs s))"
  have step: "copyRing ring (p # ps) s = copyRing ring ps s'"
    by (simp add: s'_def new_Location_def asLocation_def)
  have l: "locObjs s' = locObjs s @ [asLocation (locObjs s ! p)]"
    and r: "rings s' = (rings s)[ring := rings s ! ring @ [length (locObjs s)]]"
    and t: "tops s' = tops s"
    by (simp_all add: s'_def push_ring_def)
  have a: "ring < length (rings s')" using Cons.prems r by simp
  have b: "\<forall>q \<in> set ps. q < length (locObjs s')" using Cons.prems l by auto
  have m: "map (\<lambda>q. asLocation (locObjs s' ! q)) ps = map (\<lambda>q. asLocation (locObjs s ! q)) ps"
    using Cons.prems by (simp add: l nth_append)
  have u: "[length (locObjs s) ..< length (locObjs s) + length (p # ps)]
             = length (locObjs s) # [length (locObjs s') ..< length (locObjs s') + length ps]"
    by (simp add: l upt_rec)
  have "copyRing ring (p # ps) s =
      s'\<lparr>locObjs := locObjs s' @ map (\<lambda>q. asLocation (locObjs s ! q)) ps,
         rings := (rings s')[ring := rings s' ! ring
                    @ [length (locObjs s') ..< length (locObjs s') + length ps]]\<rparr>"
    unfolding step Cons.IH[OF a b] m ..
  also have "\<dots> =
      s\<lparr>locObjs := locObjs s' @ map (\<lambda>q. asLocation (locObjs s ! q)) ps,
        rings := (rings s')[ring := rings s' ! ring
                    @ [length (locObjs s') ..< length (locObjs s') + length ps]]\<rparr>"
    by (simp add: s'_def push_ring_def)
  also have "\<dots> =
      s\<lparr>locObjs := locObjs s @ map (\<lambda>q. asLocation (locObjs s ! q)) (p # ps),
        rings := (rings s)[ring := rings s ! ring
                    @ [length (locObjs s) ..< length (locObjs s) + length (p # ps)]]\<rparr>"
    unfolding u using Cons.prems by (simp add: l r)
  finally show ?case .
qed

lemma extends_refl: "extends s s"
  by (simp add: extends_def)

lemma extends_trans: "extends s t \<Longrightarrow> extends t u \<Longrightarrow> extends s u"
  by (auto simp: extends_def)

lemma extends_entry:
  assumes "extends s s'" and "refOk s e"
  shows "entryView s' e = entryView s e \<and> refOk s' e \<and> locAddrsOf s' e = locAddrsOf s e"
proof -
  from assms(1) obtain L R where l: "locObjs s' = locObjs s @ L" and r: "rings s' = rings s @ R"
    by (auto simp: extends_def)
  show ?thesis
  proof (cases e)
    case (LocRef p)
    then show ?thesis using assms(2) by (simp add: l nth_append)
  next
    case (RingRef q)
    then have q: "q < length (rings s)" and ps: "\<forall>p \<in> set (rings s ! q). p < length (locObjs s)"
      using assms(2) by auto
    have rq: "rings s' ! q = rings s ! q" using q by (simp add: r nth_append)
    have "map (\<lambda>p. locObjs s' ! p) (rings s ! q) = map (\<lambda>p. locObjs s ! p) (rings s ! q)"
      using ps by (simp add: l nth_append)
    then show ?thesis using RingRef q ps rq by (auto simp: ringView_def l r)
  qed
qed

lemma copyRings_step:
  assumes "refOk s (RingRef r)"
  shows "copyRings new (RingRef r # es) s = copyRings new es (ringStep new s r)"
proof -
  define s1 where "s1 = s\<lparr>rings := rings s @ [[]]\<rparr>"
  have a: "length (rings s) < length (rings s1)" by (simp add: s1_def)
  have r1: "rings s1 ! r = rings s ! r" using assms by (simp add: s1_def nth_append)
  have b: "\<forall>p \<in> set (rings s1 ! r). p < length (locObjs s1)" using assms by (simp add: r1) (simp add: s1_def)
  have c: "copyRing (length (rings s)) (rings s1 ! r) s1 =
      s\<lparr>locObjs := locObjs s @ map (\<lambda>p. asLocation (locObjs s ! p)) (rings s ! r),
        rings := rings s @ [[length (locObjs s) ..< length (locObjs s) + length (rings s ! r)]]\<rparr>"
    by (subst copyRing_eq[OF a b]) (simp add: r1, simp add: s1_def)
  show ?thesis
    by (simp add: new_ring_def s1_def[symmetric] c push_top_def ringStep_def)
qed

lemma map_nth_appended:
  "map (\<lambda>i. (xs @ ys) ! i) [length xs ..< length xs + length ys] = ys"
  by (rule nth_equalityI) (simp_all add: nth_append)

lemma ringStep_facts:
  assumes ok: "refOk s (RingRef r)" and new: "new < length (tops s)"
  shows "extends s (ringStep new s r)"
    and "length (tops (ringStep new s r)) = length (tops s)"
    and "\<And>b. b \<noteq> new \<Longrightarrow> tops (ringStep new s r) ! b = tops s ! b"
    and "tops (ringStep new s r) ! new = tops s ! new @ [RingRef (length (rings s))]"
    and "refOk (ringStep new s r) (RingRef (length (rings s)))"
    and "entryView (ringStep new s r) (RingRef (length (rings s))) = copyOf (entryView s (RingRef r))"
    and "\<forall>q \<in> locAddrsOf (ringStep new s r) (RingRef (length (rings s))). length (locObjs s) \<le> q"
proof -
  show "extends s (ringStep new s r)" by (simp add: extends_def ringStep_def)
  show "length (tops (ringStep new s r)) = length (tops s)" by (simp add: ringStep_def)
  show "\<And>b. b \<noteq> new \<Longrightarrow> tops (ringStep new s r) ! b = tops s ! b" by (simp add: ringStep_def)
  show "tops (ringStep new s r) ! new = tops s ! new @ [RingRef (length (rings s))]"
    using new by (simp add: ringStep_def)
  show "refOk (ringStep new s r) (RingRef (length (rings s)))"
    by (simp add: ringStep_def)
  have "map (\<lambda>i. (locObjs s @ map (\<lambda>p. asLocation (locObjs s ! p)) (rings s ! r)) ! i)
          [length (locObjs s) ..< length (locObjs s) + length (rings s ! r)]
        = map (\<lambda>p. asLocation (locObjs s ! p)) (rings s ! r)"
    using map_nth_appended[of "locObjs s" "map (\<lambda>p. asLocation (locObjs s ! p)) (rings s ! r)"] by simp
  then show "entryView (ringStep new s r) (RingRef (length (rings s))) = copyOf (entryView s (RingRef r))"
    by (simp add: ringStep_def ringView_def comp_def)
  show "\<forall>q \<in> locAddrsOf (ringStep new s r) (RingRef (length (rings s))). length (locObjs s) \<le> q"
    by (simp add: ringStep_def)
qed

lemma freshCopy_Cons:
  assumes x: "extends s s2" and lt: "length (tops s2) = length (tops s)"
    and oth: "\<And>b. b \<noteq> new \<Longrightarrow> tops s2 ! b = tops s ! b"
    and tn: "tops s2 ! new = tops s ! new @ [e']"
    and ok': "refOk s2 e'" and ev: "entryView s2 e' = copyOf (entryView s e)"
    and fr1: "\<forall>r. e' = RingRef r \<longrightarrow> length (rings s) \<le> r"
    and fr2: "\<forall>q \<in> locAddrsOf s2 e'. length (locObjs s) \<le> q"
    and oks: "\<forall>e \<in> set es. refOk s e"
    and T: "freshCopy s2 s' new es T"
  shows "freshCopy s s' new (e # es) (e' # T)"
proof -
  from T have x': "extends s2 s'" and lt': "length (tops s') = length (tops s2)"
    and oth': "\<forall>b. b \<noteq> new \<longrightarrow> tops s' ! b = tops s2 ! b"
    and tn': "tops s' ! new = tops s2 ! new @ T"
    and vw: "map (entryView s') T = map (\<lambda>e. copyOf (entryView s2 e)) es"
    and fr: "\<forall>e \<in> set T. refOk s' e
            \<and> (\<forall>r. e = RingRef r \<longrightarrow> length (rings s2) \<le> r)
            \<and> (\<forall>q \<in> locAddrsOf s' e. length (locObjs s2) \<le> q)"
    by (simp_all add: freshCopy_def)
  have grow: "length (rings s) \<le> length (rings s2)" "length (locObjs s) \<le> length (locObjs s2)"
    using x by (auto simp: extends_def)
  have n': "entryView s' e' = copyOf (entryView s e) \<and> refOk s' e'
      \<and> locAddrsOf s' e' = locAddrsOf s2 e'"
    using extends_entry[OF x' ok'] ev by simp
  have vw': "map (\<lambda>e. copyOf (entryView s2 e)) es = map (\<lambda>e. copyOf (entryView s e)) es"
    using oks extends_entry[OF x] by simp
  show ?thesis
    unfolding freshCopy_def
  proof (intro conjI)
    show "extends s s'" using x x' by (rule extends_trans)
    show "length (tops s') = length (tops s)" using lt lt' by simp
    show "\<forall>b. b \<noteq> new \<longrightarrow> tops s' ! b = tops s ! b" using oth oth' by simp
    show "tops s' ! new = tops s ! new @ e' # T" using tn tn' by simp
    show "map (entryView s') (e' # T) = map (\<lambda>e. copyOf (entryView s e)) (e # es)"
      using n' vw vw' by simp
    show "\<forall>u \<in> set (e' # T). refOk s' u
            \<and> (\<forall>r. u = RingRef r \<longrightarrow> length (rings s) \<le> r)
            \<and> (\<forall>q \<in> locAddrsOf s' u. length (locObjs s) \<le> q)"
    proof
      fix u assume "u \<in> set (e' # T)"
      then consider (hd) "u = e'" | (tl) "u \<in> set T" by auto
      then show "refOk s' u
            \<and> (\<forall>r. u = RingRef r \<longrightarrow> length (rings s) \<le> r)
            \<and> (\<forall>q \<in> locAddrsOf s' u. length (locObjs s) \<le> q)"
      proof cases
        case hd
        then show ?thesis using n' fr1 fr2 by simp
      next
        case tl
        with fr have a: "refOk s' u" and b: "\<forall>r. u = RingRef r \<longrightarrow> length (rings s2) \<le> r"
          and c: "\<forall>q \<in> locAddrsOf s' u. length (locObjs s2) \<le> q" by auto
        from b grow(1) have b': "\<forall>r. u = RingRef r \<longrightarrow> length (rings s) \<le> r" by auto
        from c grow(2) have c': "\<forall>q \<in> locAddrsOf s' u. length (locObjs s) \<le> q" by auto
        from a b' c' show ?thesis by blast
      qed
    qed
  qed
qed

lemma copyRings_fresh:
  assumes "new < length (tops s)" and "\<forall>e \<in> set es. (\<exists>r. e = RingRef r) \<and> refOk s e"
  shows "\<exists>T. freshCopy s (copyRings new es s) new es T"
  using assms
proof (induction es arbitrary: s)
  case Nil
  have "freshCopy s s new [] []" by (simp add: freshCopy_def extends_refl)
  then show ?case by auto
next
  case (Cons e es)
  then obtain r where e: "e = RingRef r" and ok: "refOk s (RingRef r)" by auto
  define s2 where "s2 = ringStep new s r"
  note f = ringStep_facts[OF ok Cons.prems(1), folded s2_def]
  have new2: "new < length (tops s2)" using f(2) Cons.prems(1) by simp
  have es2: "\<forall>e \<in> set es. (\<exists>r. e = RingRef r) \<and> refOk s2 e"
    using Cons.prems(2) extends_entry[OF f(1)] by auto
  from Cons.IH[OF new2 es2] obtain T where T: "freshCopy s2 (copyRings new es s2) new es T" ..
  have step: "copyRings new (e # es) s = copyRings new es s2"
    unfolding e s2_def by (rule copyRings_step[OF ok])
  have oks: "\<forall>e \<in> set es. refOk s e" using Cons.prems(2) by simp
  have "freshCopy s (copyRings new es s2) new (e # es) (RingRef (length (rings s)) # T)"
    unfolding e
    by (rule freshCopy_Cons[OF f(1) f(2) f(3) f(4) f(5) f(6) _ f(7) oks T]) auto
  then show ?case unfolding step by blast
qed

lemma copyFlat_step:
  "copyFlat new (LocRef p # es) s = copyFlat new es (flatStep new s p)"
  by (simp add: new_Location_def push_top_def flatStep_def asLocation_def)

lemma flatStep_facts:
  assumes new: "new < length (tops s)"
  shows "extends s (flatStep new s p)"
    and "length (tops (flatStep new s p)) = length (tops s)"
    and "\<And>b. b \<noteq> new \<Longrightarrow> tops (flatStep new s p) ! b = tops s ! b"
    and "tops (flatStep new s p) ! new = tops s ! new @ [LocRef (length (locObjs s))]"
    and "refOk (flatStep new s p) (LocRef (length (locObjs s)))"
    and "entryView (flatStep new s p) (LocRef (length (locObjs s))) = copyOf (entryView s (LocRef p))"
    and "\<forall>q \<in> locAddrsOf (flatStep new s p) (LocRef (length (locObjs s))). length (locObjs s) \<le> q"
  using new by (simp_all add: flatStep_def extends_def)

lemma copyFlat_fresh:
  assumes "new < length (tops s)" and "\<forall>e \<in> set es. (\<exists>p. e = LocRef p) \<and> refOk s e"
  shows "\<exists>s' T. copyFlat new es s = Inr s' \<and> freshCopy s s' new es T"
  using assms
proof (induction es arbitrary: s)
  case Nil
  have "freshCopy s s new [] []" by (simp add: freshCopy_def extends_refl)
  then show ?case by auto
next
  case (Cons e es)
  then obtain p where e: "e = LocRef p" and ok: "refOk s (LocRef p)" by auto
  define s2 where "s2 = flatStep new s p"
  note f = flatStep_facts[OF Cons.prems(1), where p = p, folded s2_def]
  have new2: "new < length (tops s2)" using f(2) Cons.prems(1) by simp
  have es2: "\<forall>e \<in> set es. (\<exists>p. e = LocRef p) \<and> refOk s2 e"
    using Cons.prems(2) extends_entry[OF f(1)] by auto
  from Cons.IH[OF new2 es2] obtain s' T where s': "copyFlat new es s2 = Inr s'"
    and T: "freshCopy s2 s' new es T" by blast
  have step: "copyFlat new (e # es) s = Inr s'"
    unfolding e copyFlat_step s2_def[symmetric] by (rule s')
  have oks: "\<forall>e \<in> set es. refOk s e" using Cons.prems(2) by simp
  have "freshCopy s s' new (e # es) (LocRef (length (locObjs s)) # T)"
    unfolding e
    by (rule freshCopy_Cons[OF f(1) f(2) f(3) f(4) f(5) f(6) _ f(7) oks T]) auto
  then show ?case using step by blast
qed

lemma entryView_update:
  "p \<notin> locAddrsOf s e \<Longrightarrow> entryView (s\<lparr>locObjs := (locObjs s)[p := v]\<rparr>) e = entryView s e"
proof (cases e)
  case (LocRef q)
  assume "p \<notin> locAddrsOf s e"
  then show ?thesis using LocRef by simp
next
  case (RingRef r)
  assume "p \<notin> locAddrsOf s e"
  then have "\<forall>x \<in> set (rings s ! r). p \<noteq> x" using RingRef by auto
  then show ?thesis using RingRef by (simp add: ringView_def)
qed

lemma view_update:
  "p \<notin> locAddrs s a \<Longrightarrow> view (s\<lparr>locObjs := (locObjs s)[p := v]\<rparr>) a = view s a"
  by (simp add: view_def locAddrs_def entryView_update)

lemma freshCopy_independent:
  assumes fc: "freshCopy s s' new es T"
    and empty: "tops s ! new = []" and a: "a \<noteq> new" and es: "tops s ! a = es"
    and ok: "\<forall>e \<in> set es. refOk s e"
  shows "view s' new = map copyOf (view s a)"
    and "view s' a = view s a"
    and "ringAddrs s' new \<inter> ringAddrs s' a = {}"
    and "locAddrs s' new \<inter> locAddrs s' a = {}"
    and "\<forall>p \<in> locAddrs s' a. p < length (locObjs s)"
    and "\<forall>p \<in> locAddrs s' new. length (locObjs s) \<le> p"
proof -
  from fc have x: "extends s s'"
    and oth: "\<forall>b. b \<noteq> new \<longrightarrow> tops s' ! b = tops s ! b"
    and tn: "tops s' ! new = tops s ! new @ T"
    and vw: "map (entryView s') T = map (\<lambda>e. copyOf (entryView s e)) es"
    and fr: "\<forall>e \<in> set T. refOk s' e
            \<and> (\<forall>r. e = RingRef r \<longrightarrow> length (rings s) \<le> r)
            \<and> (\<forall>q \<in> locAddrsOf s' e. length (locObjs s) \<le> q)"
    by (simp_all add: freshCopy_def)
  have ta: "tops s' ! a = es" using oth a es by simp
  have tnew: "tops s' ! new = T" using tn empty by simp
  show "view s' new = map copyOf (view s a)"
    by (simp add: view_def tnew vw es)
  show "view s' a = view s a"
    using ok extends_entry[OF x] by (simp add: view_def ta es)
  have old: "\<forall>e \<in> set es. locAddrsOf s' e = locAddrsOf s e"
    using ok extends_entry[OF x] by simp
  have oldb: "\<forall>e \<in> set es. \<forall>q \<in> locAddrsOf s e. q < length (locObjs s)"
  proof
    fix e assume "e \<in> set es"
    then have "refOk s e" using ok by simp
    then show "\<forall>q \<in> locAddrsOf s e. q < length (locObjs s)" by (cases e) auto
  qed
  show lo: "\<forall>p \<in> locAddrs s' a. p < length (locObjs s)"
    using old oldb by (auto simp: locAddrs_def ta)
  show hi: "\<forall>p \<in> locAddrs s' new. length (locObjs s) \<le> p"
    using fr by (auto simp: locAddrs_def tnew)
  show "locAddrs s' new \<inter> locAddrs s' a = {}"
    using lo hi by fastforce
  have "\<forall>r \<in> ringAddrs s' a. r < length (rings s)"
    using ok by (auto simp: ringAddrs_def ta)
  moreover have "\<forall>r \<in> ringAddrs s' new. length (rings s) \<le> r"
    using fr by (auto simp: ringAddrs_def tnew)
  ultimately show "ringAddrs s' new \<inter> ringAddrs s' a = {}"
    by fastforce
qed

lemma copyOf_Location:
  assumes "\<forall>p \<in> locAddrs s a. \<exists>x y. locObjs s ! p = Location x y"
  shows "map copyOf (view s a) = view s a"
proof -
  have "\<forall>e \<in> set (tops s ! a). copyOf (entryView s e) = entryView s e"
  proof
    fix e assume e: "e \<in> set (tops s ! a)"
    then have l: "\<forall>p \<in> locAddrsOf s e. \<exists>x y. locObjs s ! p = Location x y"
      using assms by (auto simp: locAddrs_def)
    show "copyOf (entryView s e) = entryView s e"
    proof (cases e)
      case (LocRef p)
      then show ?thesis using l by (auto simp: asLocation_def)
    next
      case (RingRef r)
      have "map (\<lambda>p. asLocation (locObjs s ! p)) (rings s ! r) = map (\<lambda>p. locObjs s ! p) (rings s ! r)"
      proof (rule map_cong[OF refl])
        fix p assume "p \<in> set (rings s ! r)"
        then obtain x y where "locObjs s ! p = Location x y" using l RingRef by auto
        then show "asLocation (locObjs s ! p) = locObjs s ! p" by (simp add: asLocation_def)
      qed
      then show ?thesis using RingRef by (simp add: ringView_def comp_def)
    qed
  qed
  then show ?thesis by (simp add: view_def)
qed

text \<open>
  C7, amended. For a flat boundary, and for a sequence of rings whose first ring has
  more than two locations, deepCopyLocations returns a new array that holds, ring by
  ring and element by element, new locations with the latitude and longitude of the
  original ones (equal to the original elements when these are locations), and leaves
  the original as it is. The copy shares no ring and no location with the original:
  writing a location of the copy afterwards leaves the original unchanged, and writing
  a location of the original leaves the copy unchanged.
\<close>

theorem deepCopyLocations_independent:
  assumes wf: "wellFormed s a" and shape: "flatBoundary s a \<or> ringedBoundary s a"
  shows "\<exists>s' a'. deepCopyLocations s a = Inr (s', a')
     \<and> view s' a' = map copyOf (view s a)
     \<and> ((\<forall>p \<in> locAddrs s a. \<exists>x y. locObjs s ! p = Location x y) \<longrightarrow> view s' a' = view s a)
     \<and> view s' a = view s a
     \<and> a' \<noteq> a \<and> ringAddrs s' a' \<inter> ringAddrs s' a = {} \<and> locAddrs s' a' \<inter> locAddrs s' a = {}
     \<and> (\<forall>p v. p \<in> locAddrs s' a' \<longrightarrow> view (s'\<lparr>locObjs := (locObjs s')[p := v]\<rparr>) a = view s a)
     \<and> (\<forall>p v. p \<in> locAddrs s' a \<longrightarrow> view (s'\<lparr>locObjs := (locObjs s')[p := v]\<rparr>) a' = view s' a')"
proof -
  define s1 where "s1 = s\<lparr>tops := tops s @ [[]]\<rparr>"
  define new where "new = length (tops s)"
  define es where "es = tops s ! a"
  from wf have alt: "a < length (tops s)" and ok: "\<forall>e \<in> set es. refOk s e"
    by (simp_all add: wellFormed_def es_def)
  have new1: "new < length (tops s1)" by (simp add: s1_def new_def)
  have es1: "tops s1 ! a = es" using alt by (simp add: s1_def es_def nth_append)
  have empty: "tops s1 ! new = []" by (simp add: s1_def new_def)
  have ane: "a \<noteq> new" using alt by (simp add: new_def)
  have ev: "\<And>e. entryView s1 e = entryView s e"
  proof -
    fix e show "entryView s1 e = entryView s e" by (cases e) (simp_all add: s1_def ringView_def)
  qed
  have rk: "\<And>e. refOk s1 e = refOk s e"
  proof -
    fix e show "refOk s1 e = refOk s e" by (cases e) (simp_all add: s1_def)
  qed
  have ok1: "\<forall>e \<in> set es. refOk s1 e" using ok rk by simp
  have fh: "firstHasLength s1 es = firstHasLength s es"
    by (cases "(s, es)" rule: firstHasLength.cases) (simp_all add: s1_def)
  have dc: "deepCopyLocations s a =
      (if firstHasLength s es then Inr (copyRings new es s1, new)
       else (case copyFlat new es s1 of Inl e \<Rightarrow> Inl e | Inr s2 \<Rightarrow> Inr (s2, new)))"
    by (simp add: deepCopyLocations_def new_top_def s1_def[symmetric] new_def[symmetric] es1 fh Let_def)
  have "\<exists>s' T. deepCopyLocations s a = Inr (s', new) \<and> freshCopy s1 s' new es T"
    using shape
  proof
    assume fl: "flatBoundary s a"
    then have allLoc: "\<forall>e \<in> set es. (\<exists>p. e = LocRef p) \<and> refOk s1 e"
    proof -
      have "\<forall>e \<in> set es. \<exists>p. e = LocRef p"
      proof
        fix e assume "e \<in> set es"
        then have "isLocRef e" using fl by (simp add: flatBoundary_def es_def list_all_iff)
        then show "\<exists>p. e = LocRef p" by (cases e) auto
      qed
      then show ?thesis using ok1 by simp
    qed
    have nf: "\<not> firstHasLength s es"
    proof (cases es)
      case Nil then show ?thesis by simp
    next
      case (Cons e es')
      then obtain p where "e = LocRef p" using allLoc by auto
      then show ?thesis using Cons by simp
    qed
    from copyFlat_fresh[OF new1 allLoc] obtain s' T where
      "copyFlat new es s1 = Inr s'" "freshCopy s1 s' new es T" by blast
    then show ?thesis using dc nf by auto
  next
    assume rg: "ringedBoundary s a"
    then have f: "firstHasLength s es" by (simp add: ringedBoundary_def es_def)
    have allRing: "\<forall>e \<in> set es. (\<exists>r. e = RingRef r) \<and> refOk s1 e"
    proof -
      have "\<forall>e \<in> set es. \<exists>r. e = RingRef r"
      proof
        fix e assume "e \<in> set es"
        then have "isRingRef e" using rg by (simp add: ringedBoundary_def es_def list_all_iff)
        then show "\<exists>r. e = RingRef r" by (cases e) auto
      qed
      then show ?thesis using ok1 by simp
    qed
    from copyRings_fresh[OF new1 allRing] obtain T where
      "freshCopy s1 (copyRings new es s1) new es T" ..
    then show ?thesis using dc f by auto
  qed
  then obtain s' T where res: "deepCopyLocations s a = Inr (s', new)"
    and fc: "freshCopy s1 s' new es T" by blast
  note ind = freshCopy_independent[OF fc empty ane es1 ok1]
  have v1: "view s1 a = view s a" by (simp add: view_def es1 es_def ev)
  have l1: "length (locObjs s1) = length (locObjs s)" by (simp add: s1_def)
  have c1: "view s' new = map copyOf (view s a)" using ind(1) v1 by simp
  have c2: "view s' a = view s a" using ind(2) v1 by simp
  have c3: "\<forall>p v. p \<in> locAddrs s' new \<longrightarrow> view (s'\<lparr>locObjs := (locObjs s')[p := v]\<rparr>) a = view s a"
  proof (intro allI impI)
    fix p v assume "p \<in> locAddrs s' new"
    then have "p \<notin> locAddrs s' a" using ind(4) by auto
    then show "view (s'\<lparr>locObjs := (locObjs s')[p := v]\<rparr>) a = view s a"
      using view_update c2 by simp
  qed
  have c4: "\<forall>p v. p \<in> locAddrs s' a \<longrightarrow> view (s'\<lparr>locObjs := (locObjs s')[p := v]\<rparr>) new = view s' new"
  proof (intro allI impI)
    fix p v assume "p \<in> locAddrs s' a"
    then have "p \<notin> locAddrs s' new" using ind(4) by auto
    then show "view (s'\<lparr>locObjs := (locObjs s')[p := v]\<rparr>) new = view s' new"
      by (rule view_update)
  qed
  have c5: "(\<forall>p \<in> locAddrs s a. \<exists>x y. locObjs s ! p = Location x y) \<longrightarrow> view s' new = view s a"
    using c1 copyOf_Location[of s a] by simp
  show ?thesis
    using res c1 c5 c2 ane[symmetric] ind(3) ind(4) c3 c4 by blast
qed

theorem deepCopyLocations_independent_witness:
  "wellFormed \<lparr>locObjs = [Location 1 2, Location 3 4, Location 5 6], rings = [[0, 1, 2]],
       tops = [[RingRef 0]]\<rparr> 0
   \<and> (flatBoundary \<lparr>locObjs = [Location 1 2, Location 3 4, Location 5 6], rings = [[0, 1, 2]],
         tops = [[RingRef 0]]\<rparr> 0
      \<or> ringedBoundary \<lparr>locObjs = [Location 1 2, Location 3 4, Location 5 6], rings = [[0, 1, 2]],
         tops = [[RingRef 0]]\<rparr> 0)
   \<and> deepCopyLocations \<lparr>locObjs = [Location 1 2, Location 3 4, Location 5 6], rings = [[0, 1, 2]],
       tops = [[RingRef 0]]\<rparr> 0
     = Inr (\<lparr>locObjs = [Location 1 2, Location 3 4, Location 5 6,
                        Location 1 2, Location 3 4, Location 5 6],
             rings = [[0, 1, 2], [3, 4, 5]], tops = [[RingRef 0], [RingRef 1]]\<rparr>, 1)
   \<and> view \<lparr>locObjs = [Location 1 2, Location 3 4, Location 5 6,
                    Location 1 2, Location 3 4, Location 5 6],
         rings = [[0, 1, 2], [3, 4, 5]], tops = [[RingRef 0], [RingRef 1]]\<rparr> 1
     = [Ring [Location 1 2, Location 3 4, Location 5 6]]
   \<and> view \<lparr>locObjs = [Location 1 2, Location 3 4, Location 5 6,
                    Location 1 2, Location 3 4, Location 5 6][4 := Location 7 8],
         rings = [[0, 1, 2], [3, 4, 5]], tops = [[RingRef 0], [RingRef 1]]\<rparr> 0
     = [Ring [Location 1 2, Location 3 4, Location 5 6]]
   \<and> view \<lparr>locObjs = [Location 1 2, Location 3 4, Location 5 6,
                    Location 1 2, Location 3 4, Location 5 6][1 := Location 7 8],
         rings = [[0, 1, 2], [3, 4, 5]], tops = [[RingRef 0], [RingRef 1]]\<rparr> 1
     = [Ring [Location 1 2, Location 3 4, Location 5 6]]"
  using deepCopyLocations_independent[of
      "\<lparr>locObjs = [Location 1 2, Location 3 4, Location 5 6], rings = [[0, 1, 2]],
        tops = [[RingRef 0]]\<rparr>" 0]
  by (simp add: wellFormed_def ringedBoundary_def deepCopyLocations_def new_top_def new_ring_def
      new_Location_def push_ring_def push_top_def Let_def view_def ringView_def)

text \<open>
  The claim as first stated fails for a sequence of rings whose first ring has two
  locations: the boundary is taken for a flat one, the ring is read as a location and
  the copy holds a location without coordinates in its place.
\<close>

theorem deepCopyLocations_short_first_ring:
  "deepCopyLocations
     \<lparr>locObjs = [Location 1 2, Location 3 4], rings = [[0, 1]], tops = [[RingRef 0]]\<rparr> 0
   = Inl UndefinedCoordinate"
  by (simp add: deepCopyLocations_def new_top_def)

section \<open>Rotation\<close>

lemma rotateVertex_eq:
  "rotateVertex gc center delta s p =
     s\<lparr>locObjs := (locObjs s)[p := rotated gc center delta (locObjs s ! p)]\<rparr>"
  by (simp add: rotateVertex_def rotated_def Let_def)

lemma rotateRing_frame:
  "rings (rotateRing gc center delta ps s) = rings s
   \<and> tops (rotateRing gc center delta ps s) = tops s
   \<and> length (locObjs (rotateRing gc center delta ps s)) = length (locObjs s)"
  by (induction ps arbitrary: s) (simp_all add: rotateVertex_eq)

lemma rotateRings_eq:
  "list_all isRingRef es \<Longrightarrow>
   rotateRings gc center delta es s = rotateRing gc center delta (concat (map (addrsOf s) es)) s"
proof (induction es arbitrary: s)
  case Nil
  then show ?case by simp
next
  case (Cons e es)
  then obtain r where e: "e = RingRef r" by (cases e) auto
  define s1 where "s1 = rotateRing gc center delta (rings s ! r) s"
  have r1: "rings s1 = rings s" by (simp add: s1_def rotateRing_frame)
  have m: "map (addrsOf s1) es = map (addrsOf s) es"
  proof (rule map_cong[OF refl])
    fix x show "addrsOf s1 x = addrsOf s x" by (cases x) (simp_all add: r1)
  qed
  have app: "\<And>xs ys t. rotateRing gc center delta (xs @ ys) t
                = rotateRing gc center delta ys (rotateRing gc center delta xs t)"
  proof -
    fix xs ys t
    show "rotateRing gc center delta (xs @ ys) t
                = rotateRing gc center delta ys (rotateRing gc center delta xs t)"
      by (induction xs arbitrary: t) simp_all
  qed
  have "rotateRings gc center delta (e # es) s = rotateRings gc center delta es s1"
    by (simp add: e s1_def)
  also have "\<dots> = rotateRing gc center delta (concat (map (addrsOf s1) es)) s1"
    using Cons by simp
  also have "\<dots> = rotateRing gc center delta (concat (map (addrsOf s) (e # es))) s"
    unfolding m by (simp add: e app s1_def)
  finally show ?case .
qed

lemma rotateFlat_eq:
  "list_all isLocRef es \<Longrightarrow>
   rotateFlat gc center delta es s = Inr (rotateRing gc center delta (concat (map (addrsOf s) es)) s)"
proof (induction es arbitrary: s)
  case Nil
  then show ?case by simp
next
  case (Cons e es)
  then obtain p where e: "e = LocRef p" by (cases e) auto
  define s1 where "s1 = rotateVertex gc center delta s p"
  have r1: "rings s1 = rings s" by (simp add: s1_def rotateVertex_eq)
  have m: "map (addrsOf s1) es = map (addrsOf s) es"
  proof (rule map_cong[OF refl])
    fix x show "addrsOf s1 x = addrsOf s x" by (cases x) (simp_all add: r1)
  qed
  show ?case using Cons by (simp add: e s1_def[symmetric] m)
qed

lemma writeResult_same: "writeResult v (latitude v, longitude v) = v"
  by (cases v) simp_all

lemma rotateRing_noop:
  assumes "\<forall>p \<in> set ps. returnsTo gc center (locObjs s ! p)"
  shows "rotateRing gc center 0 ps s = s"
  using assms
proof (induction ps arbitrary: s)
  case Nil
  then show ?case by simp
next
  case (Cons p ps)
  have "rotated gc center 0 (locObjs s ! p) = locObjs s ! p"
    using Cons.prems by (simp add: rotated_def returnsTo_def writeResult_same)
  then have "rotateVertex gc center 0 s p = s"
    by (simp add: rotateVertex_eq)
  then show ?case using Cons by simp
qed

lemma rotateRing_distance:
  assumes "keepsDistance gc 0"
  shows "\<forall>q < length (locObjs s).
           greatCircleDistance gc center (locObjs (rotateRing gc center delta ps s) ! q)
             = greatCircleDistance gc center (locObjs s ! q)"
proof (induction ps arbitrary: s)
  case Nil
  then show ?case by simp
next
  case (Cons p ps)
  define s1 where "s1 = rotateVertex gc center delta s p"
  have len: "length (locObjs s1) = length (locObjs s)" by (simp add: s1_def rotateVertex_eq)
  have one: "\<forall>q < length (locObjs s).
      greatCircleDistance gc center (locObjs s1 ! q) = greatCircleDistance gc center (locObjs s ! q)"
  proof (intro allI impI)
    fix q assume q: "q < length (locObjs s)"
    show "greatCircleDistance gc center (locObjs s1 ! q) = greatCircleDistance gc center (locObjs s ! q)"
    proof (cases "q = p")
      case True
      then have "locObjs s1 ! q = rotated gc center delta (locObjs s ! q)"
        using q by (simp add: s1_def rotateVertex_eq)
      then show ?thesis using assms by (simp add: rotated_def keepsDistance_def)
    next
      case False
      then show ?thesis by (simp add: s1_def rotateVertex_eq)
    qed
  qed
  show ?case using Cons[of s1] one len by (simp add: s1_def)
qed

lemma rotateRing_distinct:
  assumes "distinct ps" and "\<forall>p \<in> set ps. p < length (locObjs s)"
  shows "\<forall>q < length (locObjs s).
           locObjs (rotateRing gc center delta ps s) ! q
             = (if q \<in> set ps then rotated gc center delta (locObjs s ! q) else locObjs s ! q)"
  using assms
proof (induction ps arbitrary: s)
  case Nil
  then show ?case by simp
next
  case (Cons p ps)
  define s1 where "s1 = rotateVertex gc center delta s p"
  have len: "length (locObjs s1) = length (locObjs s)" by (simp add: s1_def rotateVertex_eq)
  have d: "distinct ps" and pn: "p \<notin> set ps" and pv: "p < length (locObjs s)"
    and v: "\<forall>q \<in> set ps. q < length (locObjs s1)"
    using Cons.prems len by auto
  have ih: "\<forall>q < length (locObjs s1).
           locObjs (rotateRing gc center delta ps s1) ! q
             = (if q \<in> set ps then rotated gc center delta (locObjs s1 ! q) else locObjs s1 ! q)"
    by (rule Cons.IH[OF d v])
  show ?case
  proof (intro allI impI)
    fix q assume q: "q < length (locObjs s)"
    have step: "rotateRing gc center delta (p # ps) s = rotateRing gc center delta ps s1"
      by (simp add: s1_def)
    show "locObjs (rotateRing gc center delta (p # ps) s) ! q
             = (if q \<in> set (p # ps) then rotated gc center delta (locObjs s ! q) else locObjs s ! q)"
    proof (cases "q = p")
      case True
      then have "locObjs s1 ! q = rotated gc center delta (locObjs s ! q)"
        using q by (simp add: s1_def rotateVertex_eq)
      then show ?thesis using ih q len pn True step by simp
    next
      case False
      then have "locObjs s1 ! q = locObjs s ! q" by (simp add: s1_def rotateVertex_eq)
      then show ?thesis using ih q len False step by simp
    qed
  qed
qed

lemma firstIsRing_view: "firstIsRing (view s a) = firstHasLength s (tops s ! a)"
  by (cases "(s, tops s ! a)" rule: firstHasLength.cases) (simp_all add: view_def ringView_def)

lemma addrsOf_valid:
  assumes "wellFormed s a"
  shows "\<forall>p \<in> set (vertexAddrs s a). p < length (locObjs s)"
proof
  fix p assume "p \<in> set (vertexAddrs s a)"
  then obtain e where e: "e \<in> set (tops s ! a)" and p: "p \<in> set (addrsOf s e)"
    by (auto simp: vertexAddrs_def)
  then have "refOk s e" using assms by (simp add: wellFormed_def)
  then show "p < length (locObjs s)" using p by (cases e) auto
qed

lemma locAddrs_vertexAddrs: "locAddrs s a = set (vertexAddrs s a)"
proof -
  have "\<And>e. locAddrsOf s e = set (addrsOf s e)"
  proof -
    fix e show "locAddrsOf s e = set (addrsOf s e)" by (cases e) simp_all
  qed
  then show ?thesis by (simp add: locAddrs_def vertexAddrs_def)
qed

lemma view_rotated:
  assumes same: "rings s' = rings s" "tops s' = tops s"
    and val: "\<forall>q \<in> set (vertexAddrs s a). locObjs s' ! q = f (locObjs s ! q)"
  shows "view s' a = map (mapEntry f) (view s a)"
proof -
  have "\<forall>e \<in> set (tops s ! a). entryView s' e = mapEntry f (entryView s e)"
  proof
    fix e assume e: "e \<in> set (tops s ! a)"
    then have sub: "\<forall>q \<in> set (addrsOf s e). locObjs s' ! q = f (locObjs s ! q)"
      using val by (auto simp: vertexAddrs_def)
    show "entryView s' e = mapEntry f (entryView s e)"
    proof (cases e)
      case (LocRef p)
      then show ?thesis using sub by simp
    next
      case (RingRef r)
      then show ?thesis using sub by (simp add: ringView_def same)
    qed
  qed
  then show ?thesis by (simp add: view_def same)
qed

lemma latitude_writeResult: "latitude (writeResult v (x, y)) = x"
  by (cases v) simp_all

lemma keepsDistance_chart: "keepsDistance chart 0"
  by (simp add: keepsDistance_def chart_def latitude_writeResult)

text \<open>
  C4, amended. Let the boundary be flat or a sequence of rings, with its center
  defined. rotateLocations returns the delta heading, the azimuth from the center to
  the current position minus the azimuth to the previous position, which is zero when
  the two positions are equal. When the vertices of the boundary are different
  objects, every vertex, in every ring, is rewritten in place to the destination from
  the center at its original azimuth plus the delta and at its original distance.
  Every vertex keeps its distance from the center, provided the destination at the
  distance of a location lies at that distance; and when the destination is off by no
  more than a tolerance and the vertices are different objects, every vertex keeps
  its distance up to that tolerance. A call with equal positions leaves
  every location as it is, provided each vertex has the coordinates that the
  destination at its own azimuth and distance has.
\<close>

theorem rotateLocations_rotates:
  assumes wf: "wellFormed s a" and shape: "flatBoundary s a \<or> ringedBoundary s a"
    and center: "getCenter g (view s a) = Inr center"
  shows "\<exists>s'. rotateLocations gc g s terrainPosition previousPosition a
                = Inr (s', greatCircleAzimuth gc center terrainPosition
                             - greatCircleAzimuth gc center previousPosition)
     \<and> (terrainPosition = previousPosition \<longrightarrow>
          greatCircleAzimuth gc center terrainPosition
            - greatCircleAzimuth gc center previousPosition = 0)
     \<and> (terrainPosition = previousPosition
          \<and> (\<forall>p \<in> locAddrs s a. returnsTo gc center (locObjs s ! p)) \<longrightarrow> s' = s)
     \<and> (keepsDistance gc 0 \<longrightarrow>
          (\<forall>p \<in> locAddrs s a. greatCircleDistance gc center (locObjs s' ! p)
                                = greatCircleDistance gc center (locObjs s ! p)))
     \<and> (distinct (vertexAddrs s a) \<and> keepsDistance gc tolerance \<longrightarrow>
          (\<forall>p \<in> locAddrs s a. \<bar>greatCircleDistance gc center (locObjs s' ! p)
                                 - greatCircleDistance gc center (locObjs s ! p)\<bar> \<le> tolerance))
     \<and> (distinct (vertexAddrs s a) \<longrightarrow>
          view s' a = map (mapEntry (rotated gc center
                        (greatCircleAzimuth gc center terrainPosition
                           - greatCircleAzimuth gc center previousPosition))) (view s a))"
proof -
  define delta where "delta = greatCircleAzimuth gc center terrainPosition
                             - greatCircleAzimuth gc center previousPosition"
  define es where "es = tops s ! a"
  define s' where "s' = rotateRing gc center delta (vertexAddrs s a) s"
  have res: "rotateLocations gc g s terrainPosition previousPosition a = Inr (s', delta)"
    using shape
  proof
    assume fl: "flatBoundary s a"
    then have allLoc: "list_all isLocRef es" by (simp add: flatBoundary_def es_def)
    have nf: "\<not> firstHasLength s es"
    proof (cases es)
      case Nil then show ?thesis by simp
    next
      case (Cons e es')
      then have "isLocRef e" using allLoc by simp
      then obtain p where "e = LocRef p" by (cases e) auto
      then show ?thesis using Cons by simp
    qed
    have two: "2 \<le> length es"
    proof (rule ccontr)
      assume "\<not> 2 \<le> length es"
      moreover have "\<not> firstIsRing (view s a)" using nf by (simp add: firstIsRing_view es_def)
      moreover have "length (view s a) = length es" by (simp add: view_def es_def)
      ultimately have "getCenter g (view s a) = Inl DivisionByZero"
        by (simp add: getCenter_def averagePosition_def)
      then show False using center by simp
    qed
    show ?thesis
      using nf two
      by (simp add: rotateLocations_def center Let_def es_def[symmetric] delta_def[symmetric]
          rotateFlat_eq[OF allLoc] s'_def vertexAddrs_def)
  next
    assume rg: "ringedBoundary s a"
    then have f: "firstHasLength s es" and allRing: "list_all isRingRef es"
      by (simp_all add: ringedBoundary_def es_def)
    show ?thesis
      using f
      by (simp add: rotateLocations_def center Let_def es_def[symmetric] delta_def[symmetric]
          rotateRings_eq[OF allRing] s'_def vertexAddrs_def)
  qed
  have valid: "\<forall>p \<in> set (vertexAddrs s a). p < length (locObjs s)"
    by (rule addrsOf_valid[OF wf])
  have zero: "terrainPosition = previousPosition \<longrightarrow> delta = 0"
    by (simp add: delta_def)
  have noop: "terrainPosition = previousPosition
          \<and> (\<forall>p \<in> locAddrs s a. returnsTo gc center (locObjs s ! p)) \<longrightarrow> s' = s"
  proof
    assume h: "terrainPosition = previousPosition
          \<and> (\<forall>p \<in> locAddrs s a. returnsTo gc center (locObjs s ! p))"
    then have d: "delta = 0" using zero by simp
    have "\<forall>p \<in> set (vertexAddrs s a). returnsTo gc center (locObjs s ! p)"
      using h by (simp add: locAddrs_vertexAddrs)
    then show "s' = s" unfolding s'_def d by (rule rotateRing_noop)
  qed
  have dist: "keepsDistance gc 0 \<longrightarrow>
          (\<forall>p \<in> locAddrs s a. greatCircleDistance gc center (locObjs s' ! p)
                                = greatCircleDistance gc center (locObjs s ! p))"
    using rotateRing_distance[of gc s center delta "vertexAddrs s a"] valid
    by (simp add: s'_def locAddrs_vertexAddrs)
  have near: "distinct (vertexAddrs s a) \<and> keepsDistance gc tolerance \<longrightarrow>
          (\<forall>p \<in> locAddrs s a. \<bar>greatCircleDistance gc center (locObjs s' ! p)
                                 - greatCircleDistance gc center (locObjs s ! p)\<bar> \<le> tolerance)"
  proof (intro impI ballI)
    fix p
    assume h: "distinct (vertexAddrs s a) \<and> keepsDistance gc tolerance"
      and p: "p \<in> locAddrs s a"
    then have pv: "p \<in> set (vertexAddrs s a)" by (simp add: locAddrs_vertexAddrs)
    then have "locObjs s' ! p = rotated gc center delta (locObjs s ! p)"
      using rotateRing_distinct[OF conjunct1[OF h] valid, of gc center delta] valid
      by (simp add: s'_def)
    then show "\<bar>greatCircleDistance gc center (locObjs s' ! p)
                 - greatCircleDistance gc center (locObjs s ! p)\<bar> \<le> tolerance"
      using h by (simp add: rotated_def keepsDistance_def)
  qed
  have rot: "distinct (vertexAddrs s a) \<longrightarrow>
          view s' a = map (mapEntry (rotated gc center delta)) (view s a)"
  proof
    assume d: "distinct (vertexAddrs s a)"
    have "\<forall>q \<in> set (vertexAddrs s a). locObjs s' ! q = rotated gc center delta (locObjs s ! q)"
      using rotateRing_distinct[OF d valid, of gc center delta] valid by (simp add: s'_def)
    then show "view s' a = map (mapEntry (rotated gc center delta)) (view s a)"
      by (intro view_rotated) (simp_all add: s'_def rotateRing_frame)
  qed
  show ?thesis
    using res zero noop dist near rot unfolding delta_def by blast
qed

theorem rotateLocations_rotates_witness:
  "wellFormed squareStore 0
   \<and> (flatBoundary squareStore 0 \<or> ringedBoundary squareStore 0)
   \<and> getCenter planar (view squareStore 0) = Inr (Position 1 1 0)
   \<and> keepsDistance chart 0
   \<and> returnsTo chart (Position 1 1 0) (Location 0 0)
   \<and> returnsTo chart (Position 1 1 0) (Location 0 2)
   \<and> returnsTo chart (Position 1 1 0) (Location 2 2)
   \<and> returnsTo chart (Position 1 1 0) (Location 2 0)
   \<and> distinct (vertexAddrs squareStore 0)
   \<and> rotateLocations chart planar squareStore (Location 1 5) (Location 1 3) 0
       = Inr (\<lparr>locObjs = [Location 0 2, Location 0 4, Location 2 4, Location 2 2], rings = [],
               tops = [[LocRef 0, LocRef 1, LocRef 2, LocRef 3]]\<rparr>, 2)
   \<and> rotateLocations chart planar squareStore (Location 1 3) (Location 1 3) 0
       = Inr (squareStore, 0)"
proof -
  have a: "wellFormed squareStore 0"
    by (simp add: squareStore_def wellFormed_def)
  have b: "flatBoundary squareStore 0"
    by (simp add: squareStore_def flatBoundary_def)
  have c: "getCenter planar (view squareStore 0) = Inr (Position 1 1 0)"
    by (simp add: squareStore_def view_def getCenter_def averagePosition_def planar_def)
  have d: "distinct (vertexAddrs squareStore 0)"
    by (simp add: squareStore_def vertexAddrs_def)
  have r: "returnsTo chart (Position 1 1 0) (Location 0 0)"
      "returnsTo chart (Position 1 1 0) (Location 0 2)"
      "returnsTo chart (Position 1 1 0) (Location 2 2)"
      "returnsTo chart (Position 1 1 0) (Location 2 0)"
    by (simp_all add: returnsTo_def chart_def wrap180_def)
  have addrs: "locAddrs squareStore 0 = {0, 1, 2, 3}"
    by (auto simp: locAddrs_def squareStore_def)
  have all: "\<forall>p \<in> locAddrs squareStore 0. returnsTo chart (Position 1 1 0) (locObjs squareStore ! p)"
    unfolding addrs using r by (simp add: squareStore_def)
  have e: "rotateLocations chart planar squareStore (Location 1 5) (Location 1 3) 0
       = Inr (\<lparr>locObjs = [Location 0 2, Location 0 4, Location 2 4, Location 2 2], rings = [],
               tops = [[LocRef 0, LocRef 1, LocRef 2, LocRef 3]]\<rparr>, 2)"
    by (simp add: rotateLocations_def c Let_def)
       (simp add: squareStore_def rotateVertex_def chart_def wrap180_def Let_def)
  from rotateLocations_rotates[OF a disjI1[OF b] c, of chart "Location 1 3" "Location 1 3"] all
  have f: "rotateLocations chart planar squareStore (Location 1 3) (Location 1 3) 0
       = Inr (squareStore, 0)"
    by auto
  show ?thesis using a b c d e f r keepsDistance_chart by simp
qed

text \<open>
  The claim as first stated fails in two ways. When a location occurs twice in the
  boundary it is rewritten once for each occurrence, the second time from where the
  first rotation left it: with a delta of 5 the shared vertex ends 10 away from its
  azimuth, not 5. And a call with equal positions rewrites every vertex to the
  destination at its own azimuth and distance, which need not have the coordinates the
  vertex had: the locations written with the longitudes 370 and 372 come back with
  the longitudes 10 and 12.
\<close>

theorem rotateLocations_shared_vertex:
  "rotateLocations chart planar sharedStore (Location 0 5) (Location 0 0) 0
     = Inr (\<lparr>locObjs = [Location 0 10, Location 6 5], rings = [],
             tops = [[LocRef 0, LocRef 1, LocRef 0]]\<rparr>, 5)
   \<and> rotated chart (Position 2 0 0) 5 (Location 0 0) = Location 0 5
   \<and> rotateLocations chart planar farStore (Location 0 0) (Location 0 0) 0
     = Inr (\<lparr>locObjs = [Location 0 10, Location 0 12], rings = [],
             tops = [[LocRef 0, LocRef 1]]\<rparr>, 0)"
proof -
  have c: "getCenter planar (view sharedStore 0) = Inr (Position 2 0 0)"
    by (simp add: sharedStore_def view_def getCenter_def averagePosition_def planar_def)
  have "rotateLocations chart planar sharedStore (Location 0 5) (Location 0 0) 0
     = Inr (\<lparr>locObjs = [Location 0 10, Location 6 5], rings = [],
             tops = [[LocRef 0, LocRef 1, LocRef 0]]\<rparr>, 5)"
    by (simp add: rotateLocations_def c Let_def)
       (simp add: sharedStore_def rotateVertex_def chart_def wrap180_def Let_def)
  moreover have "rotated chart (Position 2 0 0) 5 (Location 0 0) = Location 0 5"
    by (simp add: rotated_def chart_def wrap180_def)
  moreover have c': "getCenter planar (view farStore 0) = Inr (Position 0 371 0)"
    by (simp add: farStore_def view_def getCenter_def averagePosition_def planar_def)
  have "rotateLocations chart planar farStore (Location 0 0) (Location 0 0) 0
     = Inr (\<lparr>locObjs = [Location 0 10, Location 0 12], rings = [],
             tops = [[LocRef 0, LocRef 1]]\<rparr>, 0)"
    by (simp add: rotateLocations_def c' Let_def)
       (simp add: farStore_def rotateVertex_def chart_def wrap180_def Let_def)
  ultimately show ?thesis by simp
qed

end
